theory Spec2Isabelle
  imports Complex_Main "HOL-Library.Stream" "HOL-Library.Multiset"
begin

chapter \<open>js-utils: formatting, validation, array, date and random helpers\<close>

section \<open>Platform values\<close>

subsection \<open>Strings\<close>

text \<open>
  A JavaScript string is a sequence of UTF-16 code units; \<open>length\<close>, \<open>slice\<close>, indexing
  and the regular expressions of this library (none has the \<open>u\<close> flag) all work on code
  units. A code unit is modelled by its number. \<open>utf16\<close> turns an ASCII literal into its
  code units.
\<close>

type_synonym code_unit = nat
type_synonym jsstring = "code_unit list"

definition utf16 :: "string \<Rightarrow> jsstring" where
  "utf16 s = map of_char s"

text \<open>The quotation marks, which cannot be written inside a literal here.\<close>

definition DQUOTE :: code_unit where
  "DQUOTE = 34"

definition SQUOTE :: code_unit where
  "SQUOTE = 39"

text \<open>The character classes of the regular expressions: \<open>\d\<close>, \<open>\w\<close>, \<open>\s\<close>, \<open>[A-Z]\<close>, \<open>[a-z]\<close>.\<close>

definition is_digit :: "code_unit \<Rightarrow> bool" where
  "is_digit c = (of_char CHR ''0'' \<le> c \<and> c \<le> of_char CHR ''9'')"

definition is_upper :: "code_unit \<Rightarrow> bool" where
  "is_upper c = (of_char CHR ''A'' \<le> c \<and> c \<le> of_char CHR ''Z'')"

definition is_lower :: "code_unit \<Rightarrow> bool" where
  "is_lower c = (of_char CHR ''a'' \<le> c \<and> c \<le> of_char CHR ''z'')"

definition is_word_char :: "code_unit \<Rightarrow> bool" where
  "is_word_char c = (is_upper c \<or> is_lower c \<or> is_digit c \<or> c = of_char CHR ''_'')"

text \<open>
  \<open>\s\<close> is ECMAScript's WhiteSpace and LineTerminator: TAB, LF, VT, FF, CR, SP, NBSP,
  U+1680, U+2000 to U+200A, U+2028, U+2029, U+202F, U+205F, U+3000 and U+FEFF.
\<close>

definition is_space :: "code_unit \<Rightarrow> bool" where
  "is_space c =
     (c \<in> set [0x9, 0xA, 0xB, 0xC, 0xD, 0x20, 0xA0, 0x1680, 0x2028, 0x2029,
                 0x202F, 0x205F, 0x3000, 0xFEFF]
      \<or> (0x2000 \<le> c \<and> c \<le> 0x200A))"

subsection \<open>Numbers\<close>

text \<open>
  The numbers this development needs are integers, modelled by \<open>int\<close> (they stand for
  the integers a Number holds exactly), the two infinities and \<open>NaN\<close>; the sign of a
  zero is not modelled. \<open>Number.prototype.toString\<close> of an integer below \<open>10^21\<close> in
  magnitude is its decimal numeral.
\<close>

datatype jsnum = Num int | Infinity | MinusInfinity | NaN

text \<open>
  Subtraction, negation and \<open>==\<close> on numbers: \<open>NaN\<close> spreads through the arithmetic
  and is equal to nothing, itself included.
\<close>

fun js_minus :: "jsnum \<Rightarrow> jsnum \<Rightarrow> jsnum" where
  "js_minus (Num a) (Num b) = Num (a - b)"
| "js_minus NaN y = NaN"
| "js_minus x NaN = NaN"
| "js_minus Infinity Infinity = NaN"
| "js_minus MinusInfinity MinusInfinity = NaN"
| "js_minus Infinity y = Infinity"
| "js_minus MinusInfinity y = MinusInfinity"
| "js_minus (Num a) Infinity = MinusInfinity"
| "js_minus (Num a) MinusInfinity = Infinity"

fun js_negate :: "jsnum \<Rightarrow> jsnum" where
  "js_negate (Num a) = Num (- a)"
| "js_negate Infinity = MinusInfinity"
| "js_negate MinusInfinity = Infinity"
| "js_negate NaN = NaN"

definition js_equals :: "jsnum \<Rightarrow> jsnum \<Rightarrow> bool" where
  "js_equals x y = (x \<noteq> NaN \<and> x = y)"



fun Math_floor_quotient :: "jsnum \<Rightarrow> int \<Rightarrow> jsnum" where
  "Math_floor_quotient (Num a) b =
     (if b = 0 then (if a = 0 then NaN else if 0 < a then Infinity else MinusInfinity)
      else Num \<lfloor>real_of_int a / real_of_int b\<rfloor>)"
| "Math_floor_quotient Infinity b = (if 0 \<le> b then Infinity else MinusInfinity)"
| "Math_floor_quotient MinusInfinity b = (if 0 \<le> b then MinusInfinity else Infinity)"
| "Math_floor_quotient NaN b = NaN"

fun nat_toString :: "nat \<Rightarrow> jsstring" where
  "nat_toString n =
     (if n < 10 then [of_char CHR ''0'' + n]
      else nat_toString (n div 10) @ [of_char CHR ''0'' + n mod 10])"

definition number_toString :: "int \<Rightarrow> jsstring" where
  "number_toString v =
     (if v < 0 then of_char CHR ''-'' # nat_toString (nat (- v)) else nat_toString (nat v))"

subsection \<open>Errors\<close>

text \<open>
  A thrown exception is a value: \<open>Error message\<close> is \<open>throw new Error(message)\<close>,
  \<open>RangeError\<close> is what \<open>String.prototype.repeat\<close> throws on a negative count.
\<close>

datatype js_error = Error jsstring | RangeError

subsection \<open>slice and repeat\<close>

text \<open>
  \<open>Array.prototype.slice\<close> and \<open>String.prototype.slice\<close>: a negative bound counts from
  the end, both bounds are clamped to the length, an absent end is the length, and the
  result is empty when the end is not beyond the start.
\<close>

definition slice_index :: "nat \<Rightarrow> int \<Rightarrow> nat" where
  "slice_index len rel =
     (if rel < 0 then nat (max (int len + rel) 0) else nat (min rel (int len)))"

definition js_slice :: "'a list \<Rightarrow> int \<Rightarrow> int option \<Rightarrow> 'a list" where
  "js_slice xs start end =
     (let len = length xs;
          k = slice_index len start;
          final = (case end of None \<Rightarrow> len | Some e \<Rightarrow> slice_index len e)
      in take (final - k) (drop k xs))"

definition repeat :: "jsstring \<Rightarrow> int \<Rightarrow> js_error + jsstring" where
  "repeat s count' =
     (if count' < 0 then Inl RangeError else Inr (concat (replicate (nat count') s)))"

section \<open>Format utilities\<close>

subsection \<open>formatNumber\<close>

text \<open>
  \<^verbatim>\<open>value.toString().replace(/\B(?=(\d{3})+(?!\d))/g, separator)\<close>

  \<open>value.toString()\<close> is the platform's; \<open>formatNumber\<close> takes its result, the canonical
  decimal string of the number. The regular expression matches the empty string at a
  position, so the replacement inserts, at every position where it matches, what the
  separator stands for there.

  \<open>three_digit_groups rest\<close> is the lookahead \<open>(?=(\d{3})+(?!\d))\<close> on the text from the
  position on: a group of three digits, followed by further groups or by something
  that is not a digit; \<open>last_group rest\<close> is what the group has captured when the
  lookahead holds, its last repetition. \<open>not_word_boundary\<close> is \<open>\B\<close>: the code units on
  both sides of the position are both word characters or both not (the ends of the
  text are not).
\<close>

definition starts_with_digit :: "jsstring \<Rightarrow> bool" where
  "starts_with_digit s = (case s of [] \<Rightarrow> False | c # _ \<Rightarrow> is_digit c)"

fun three_digit_groups :: "jsstring \<Rightarrow> bool" where
  "three_digit_groups (a # b # c # rest) =
     (is_digit a \<and> is_digit b \<and> is_digit c
      \<and> (three_digit_groups rest \<or> \<not> starts_with_digit rest))"
| "three_digit_groups _ = False"

fun last_group :: "jsstring \<Rightarrow> jsstring" where
  "last_group (a # b # c # rest) =
     (if three_digit_groups rest then last_group rest else [a, b, c])"
| "last_group _ = []"

definition word_char_at :: "code_unit option \<Rightarrow> bool" where
  "word_char_at p = (case p of None \<Rightarrow> False | Some c \<Rightarrow> is_word_char c)"

definition not_word_boundary :: "code_unit option \<Rightarrow> jsstring \<Rightarrow> bool" where
  "not_word_boundary prev rest =
     (word_char_at prev = word_char_at (case rest of [] \<Rightarrow> None | c # _ \<Rightarrow> Some c))"

definition separator_position :: "code_unit option \<Rightarrow> jsstring \<Rightarrow> bool" where
  "separator_position prev rest = (not_word_boundary prev rest \<and> three_digit_groups rest)"

text \<open>
  The replacement is a string, in which \<open>String.prototype.replace\<close> expands the patterns
  that begin with a dollar sign (ECMAScript's GetSubstitution). The match is empty and
  there is one capture group, so \<open>$$\<close> stands for a dollar sign, \<open>$&\<close> for nothing, \<open>$`\<close>
  for the text before the position, \<open>$'\<close> for the text from the position on, \<open>$1\<close> and
  \<open>$01\<close> for the captured group, and every other dollar sign for itself.
\<close>

definition DOLLAR :: code_unit where
  "DOLLAR = 36"

definition GRAVE :: code_unit where
  "GRAVE = 96"

fun get_substitution :: "jsstring \<Rightarrow> jsstring \<Rightarrow> jsstring \<Rightarrow> jsstring \<Rightarrow> jsstring" where
  "get_substitution before after capture (c # d # template) =
     (if c = DOLLAR \<and> d = DOLLAR
        then DOLLAR # get_substitution before after capture template
      else if c = DOLLAR \<and> d = of_char CHR ''&''
        then get_substitution before after capture template
      else if c = DOLLAR \<and> d = GRAVE
        then before @ get_substitution before after capture template
      else if c = DOLLAR \<and> d = SQUOTE
        then after @ get_substitution before after capture template
      else if c = DOLLAR \<and> d = of_char CHR ''0''
              \<and> take 1 template = [of_char CHR ''1'']
        then capture @ get_substitution before after capture (drop 1 template)
      else if c = DOLLAR \<and> d = of_char CHR ''1''
        then capture @ get_substitution before after capture template
      else c # get_substitution before after capture (d # template))"
| "get_substitution before after capture template = template"

text \<open>
  The scan, with the text before the position and the text from the position on.
\<close>

definition last_unit :: "jsstring \<Rightarrow> code_unit option" where
  "last_unit before = (if before = [] then None else Some (last before))"

fun insert_separators :: "jsstring \<Rightarrow> jsstring \<Rightarrow> jsstring \<Rightarrow> jsstring" where
  "insert_separators before [] separator =
     (if separator_position (last_unit before) []
      then get_substitution before [] (last_group []) separator else [])"
| "insert_separators before (c # cs) separator =
     (if separator_position (last_unit before) (c # cs)
      then get_substitution before (c # cs) (last_group (c # cs)) separator else [])
     @ c # insert_separators (before @ [c]) cs separator"

definition formatNumber :: "jsstring \<Rightarrow> jsstring \<Rightarrow> jsstring" where
  "formatNumber valueString separator = insert_separators [] valueString separator"

subsection \<open>mask\<close>

text \<open>
  \<^verbatim>\<open>
  if (text.length <= visibleStart + visibleEnd) { return text; }
  const start = text.slice(0, visibleStart);
  const end = text.slice(-visibleEnd);
  const masked = maskChar.repeat(text.length - visibleStart - visibleEnd);
  return start + masked + end;
  \<close>
  The parameters default to 4, 4 and \<open>'*'\<close>.
\<close>

definition mask :: "jsstring \<Rightarrow> int \<Rightarrow> int \<Rightarrow> jsstring \<Rightarrow> js_error + jsstring" where
  "mask text visibleStart visibleEnd maskChar =
     (if int (length text) \<le> visibleStart + visibleEnd then Inr text
      else
        let start = js_slice text 0 (Some visibleStart);
            end = js_slice text (- visibleEnd) None
        in case repeat maskChar (int (length text) - visibleStart - visibleEnd) of
             Inl e \<Rightarrow> Inl e
           | Inr masked \<Rightarrow> Inr (start @ masked @ end))"

subsection \<open>escapeHtml and unescapeHtml\<close>

text \<open>
  \<^verbatim>\<open>text.replace(/[&<>"']/g, (char) => map[char])\<close>: every code unit of the class is
  replaced by its entry of the table, the others are copied.
\<close>

definition escape_map :: "(code_unit \<times> jsstring) list" where
  "escape_map =
     [(of_char CHR ''&'', utf16 ''&amp;''),
      (of_char CHR ''<'', utf16 ''&lt;''),
      (of_char CHR ''>'', utf16 ''&gt;''),
      (DQUOTE, utf16 ''&quot;''),
      (SQUOTE, utf16 ''&#039;'')]"

definition is_reserved :: "code_unit \<Rightarrow> bool" where
  "is_reserved c =
     (c \<in> set [of_char CHR ''&'', of_char CHR ''<'', of_char CHR ''>'', DQUOTE, SQUOTE])"

fun escapeHtml :: "jsstring \<Rightarrow> jsstring" where
  "escapeHtml [] = []"
| "escapeHtml (c # cs) =
     (if is_reserved c then (case map_of escape_map c of Some e \<Rightarrow> e | None \<Rightarrow> utf16 ''undefined'')
      else [c]) @ escapeHtml cs"

text \<open>
  \<^verbatim>\<open>text.replace(/&amp;|&lt;|&gt;|&quot;|&#039;/g, (entity) => map[entity])\<close>: the scan goes
  from left to right; at each position the alternatives are tried in their order, a
  match is replaced and the scan goes on behind it, and otherwise the code unit is
  copied.
\<close>

definition unescape_map :: "(jsstring \<times> code_unit) list" where
  "unescape_map =
     [(utf16 ''&amp;'', of_char CHR ''&''),
      (utf16 ''&lt;'', of_char CHR ''<''),
      (utf16 ''&gt;'', of_char CHR ''>''),
      (utf16 ''&quot;'', DQUOTE),
      (utf16 ''&#039;'', SQUOTE)]"

fun match_entity :: "(jsstring \<times> code_unit) list \<Rightarrow> jsstring \<Rightarrow> (jsstring \<times> code_unit) option" where
  "match_entity [] s = None"
| "match_entity ((entity, c) # alternatives) s =
     (if take (length entity) s = entity then Some (entity, c)
      else match_entity alternatives s)"

lemma match_entity_nonempty:
  "match_entity unescape_map s = Some (entity, c) \<Longrightarrow> 0 < length entity"
  by (auto simp: unescape_map_def utf16_def split: if_splits)

function unescapeHtml :: "jsstring \<Rightarrow> jsstring" where
  "unescapeHtml [] = []"
| "unescapeHtml (c # cs) =
     (case match_entity unescape_map (c # cs) of
        Some (entity, ch) \<Rightarrow> ch # unescapeHtml (drop (length entity) (c # cs))
      | None \<Rightarrow> c # unescapeHtml cs)"
  by pat_completeness auto
termination
  by (relation "measure length") (auto dest: match_entity_nonempty)

text \<open>
  The two functions as the specification words them. \<open>entity_of\<close> is the entity that
  stands for a code unit: one of the five for a reserved character, the code unit itself
  for any other. \<open>starts_with_entity\<close> says that one of the five known entities stands
  at the head of a text.
\<close>

definition entity_of :: "code_unit \<Rightarrow> jsstring" where
  "entity_of c =
     (if c = of_char CHR ''&'' then utf16 ''&amp;''
      else if c = of_char CHR ''<'' then utf16 ''&lt;''
      else if c = of_char CHR ''>'' then utf16 ''&gt;''
      else if c = DQUOTE then utf16 ''&quot;''
      else if c = SQUOTE then utf16 ''&#039;''
      else [c])"

definition starts_with_entity :: "jsstring \<Rightarrow> bool" where
  "starts_with_entity s =
     list_ex (\<lambda>entity. take (length entity) s = entity)
       [utf16 ''&amp;'', utf16 ''&lt;'', utf16 ''&gt;'', utf16 ''&quot;'', utf16 ''&#039;'']"

section \<open>Validation utilities\<close>

subsection \<open>isValidCreditCard\<close>

text \<open>
  \<^verbatim>\<open>
  const cleaned = cardNumber.replace(/\s/g, '');
  if (!/^\d+$/.test(cleaned)) { return false; }
  let sum = 0; let isEven = false;
  for (let i = cleaned.length - 1; i >= 0; i--) {
      let digit = parseInt(cleaned[i], 10);
      if (isEven) { digit *= 2; if (digit > 9) { digit -= 9; } }
      sum += digit; isEven = !isEven;
  }
  return sum % 10 === 0;
  \<close>
  \<open>parseInt10\<close> is \<open>parseInt(c, 10)\<close> on a single decimal digit; the loop is entered only
  behind the test \<open>/^\d+$/\<close>, so it reads nothing else.
\<close>

definition parseInt10 :: "code_unit \<Rightarrow> nat" where
  "parseInt10 c = c - of_char CHR ''0''"

function luhn_loop :: "jsstring \<Rightarrow> int \<Rightarrow> nat \<Rightarrow> bool \<Rightarrow> nat" where
  "luhn_loop cleaned i sumv isEven =
     (if i \<ge> 0 then
        let digit = parseInt10 (cleaned ! nat i);
            digit = (if isEven
                     then (let digit = digit * 2 in if digit > 9 then digit - 9 else digit)
                     else digit)
        in luhn_loop cleaned (i - 1) (sumv + digit) (\<not> isEven)
      else sumv)"
  by pat_completeness auto
termination
  by (relation "measure (\<lambda>(cleaned, i, sumv, isEven). nat (i + 1))") auto

definition isValidCreditCard :: "jsstring \<Rightarrow> bool" where
  "isValidCreditCard cardNumber =
     (let cleaned = filter (\<lambda>c. \<not> is_space c) cardNumber in
      if \<not> (cleaned \<noteq> [] \<and> list_all is_digit cleaned) then False
      else luhn_loop cleaned (int (length cleaned) - 1) 0 False mod 10 = 0)"

text \<open>
  The checksum as the specification words it: the digits are read from the least
  significant one, every second digit from the right is doubled, 9 is subtracted from
  a doubled value above 9, and the sum is taken. \<open>luhn_sum\<close> takes the digits least
  significant first.
\<close>

definition luhn_double :: "nat \<Rightarrow> nat" where
  "luhn_double d = (if 2 * d > 9 then 2 * d - 9 else 2 * d)"

fun luhn_sum :: "nat list \<Rightarrow> nat" where
  "luhn_sum [] = 0"
| "luhn_sum [d] = d"
| "luhn_sum (d # e # ds) = d + luhn_double e + luhn_sum ds"

text \<open>The same sum when the doubling starts at the first digit or at the second.\<close>

fun luhn_alternating :: "bool \<Rightarrow> nat list \<Rightarrow> nat" where
  "luhn_alternating doubled [] = 0"
| "luhn_alternating doubled (d # ds) =
     (if doubled then luhn_double d else d) + luhn_alternating (\<not> doubled) ds"

definition digit_values :: "jsstring \<Rightarrow> nat list" where
  "digit_values s = map (\<lambda>c. c - of_char CHR ''0'') s"

definition strip_whitespace :: "jsstring \<Rightarrow> jsstring" where
  "strip_whitespace s = filter (\<lambda>c. \<not> is_space c) s"

definition luhn_rule :: "jsstring \<Rightarrow> bool" where
  "luhn_rule cardNumber =
     (if list_ex (\<lambda>c. \<not> is_digit c) (strip_whitespace cardNumber) then False
      else luhn_sum (rev (digit_values (strip_whitespace cardNumber))) mod 10 = 0)"

subsection \<open>validatePassword\<close>

text \<open>
  \<^verbatim>\<open>
  const { minLength = 8, requireUppercase = true, requireLowercase = true,
          requireNumbers = true, requireSpecialChars = true } = options;
  const errors: string[] = [];
  if (password.length < minLength) { errors.push(`Password must be at least ${minLength} characters long`); }
  if (requireUppercase && !/[A-Z]/.test(password)) { errors.push(uppercase_message); }
  if (requireLowercase && !/[a-z]/.test(password)) { errors.push(lowercase_message); }
  if (requireNumbers && !/\d/.test(password)) { errors.push(number_message); }
  if (requireSpecialChars && !/[!@#$%^&*(),.?":{}|<>]/.test(password)) { errors.push(special_message); }
  return { isValid: errors.length === 0, errors };
  \<close>
  The four fixed messages are string literals in the source and constants here. An
  option that is absent is \<open>None\<close>; the destructuring gives it its default.
\<close>

record password_options =
  minLength :: "int option"
  requireUppercase :: "bool option"
  requireLowercase :: "bool option"
  requireNumbers :: "bool option"
  requireSpecialChars :: "bool option"

record validation_result =
  isValid :: bool
  errors :: "jsstring list"

definition is_special :: "code_unit \<Rightarrow> bool" where
  "is_special c = (c \<in> set (utf16 ''!@#$%^&*(),.?:{}|<>'' @ [DQUOTE]))"

definition length_message :: "int \<Rightarrow> jsstring" where
  "length_message minLength' =
     utf16 ''Password must be at least '' @ number_toString minLength' @ utf16 '' characters long''"

definition uppercase_message :: jsstring where
  "uppercase_message = utf16 ''Password must contain at least one uppercase letter''"

definition lowercase_message :: jsstring where
  "lowercase_message = utf16 ''Password must contain at least one lowercase letter''"

definition number_message :: jsstring where
  "number_message = utf16 ''Password must contain at least one number''"

definition special_message :: jsstring where
  "special_message = utf16 ''Password must contain at least one special character''"

definition push :: "'a list \<Rightarrow> 'a \<Rightarrow> 'a list" where
  "push xs x = xs @ [x]"

definition validatePassword :: "jsstring \<Rightarrow> password_options \<Rightarrow> validation_result" where
  "validatePassword password options =
     (let minLength' = (case minLength options of None \<Rightarrow> 8 | Some v \<Rightarrow> v);
          requireUppercase' = (case requireUppercase options of None \<Rightarrow> True | Some v \<Rightarrow> v);
          requireLowercase' = (case requireLowercase options of None \<Rightarrow> True | Some v \<Rightarrow> v);
          requireNumbers' = (case requireNumbers options of None \<Rightarrow> True | Some v \<Rightarrow> v);
          requireSpecialChars' =
            (case requireSpecialChars options of None \<Rightarrow> True | Some v \<Rightarrow> v);
          errors0 = [];
          errors1 = (if int (length password) < minLength'
                     then push errors0 (length_message minLength') else errors0);
          errors2 = (if requireUppercase' \<and> \<not> list_ex is_upper password
                     then push errors1 uppercase_message else errors1);
          errors3 = (if requireLowercase' \<and> \<not> list_ex is_lower password
                     then push errors2 lowercase_message else errors2);
          errors4 = (if requireNumbers' \<and> \<not> list_ex is_digit password
                     then push errors3 number_message else errors3);
          errors5 = (if requireSpecialChars' \<and> \<not> list_ex is_special password
                     then push errors4 special_message else errors4)
      in \<lparr>isValid = (length errors5 = 0), errors = errors5\<rparr>)"

text \<open>\<open>validatePassword(password)\<close>, the options left out: \<open>options = {}\<close>.\<close>

definition no_options :: password_options where
  "no_options =
     \<lparr>minLength = None, requireUppercase = None, requireLowercase = None,
      requireNumbers = None, requireSpecialChars = None\<rparr>"

text \<open>
  The result as the specification words it: one check after the other in the fixed
  order, each with whether it is enabled, whether it fails and its message; the errors
  are the messages of the enabled checks that fail.
\<close>

record password_check =
  enabled :: bool
  fails :: bool
  message :: jsstring

definition password_checks :: "jsstring \<Rightarrow> int \<Rightarrow> bool \<Rightarrow> bool \<Rightarrow> bool \<Rightarrow> bool \<Rightarrow> password_check list" where
  "password_checks password len upper lower numbers special =
     [\<lparr>enabled = True, fails = int (length password) < len, message = length_message len\<rparr>,
      \<lparr>enabled = upper, fails = (filter is_upper password = []), message = uppercase_message\<rparr>,
      \<lparr>enabled = lower, fails = (filter is_lower password = []), message = lowercase_message\<rparr>,
      \<lparr>enabled = numbers, fails = (filter is_digit password = []), message = number_message\<rparr>,
      \<lparr>enabled = special, fails = (filter is_special password = []), message = special_message\<rparr>]"

definition failed_messages :: "password_check list \<Rightarrow> jsstring list" where
  "failed_messages checks = map message (filter (\<lambda>c. enabled c \<and> fails c) checks)"

section \<open>Array utilities\<close>

subsection \<open>chunk\<close>

text \<open>
  \<^verbatim>\<open>
  const chunks: T[][] = [];
  for (let i = 0; i < array.length; i += size) { chunks.push(array.slice(i, i + size)); }
  return chunks;
  \<close>
  Nothing bounds the loop when \<open>size\<close> is not positive, so it is a partial function:
  \<open>None\<close> is the call that does not return.
\<close>

partial_function (option) chunk_loop ::
  "'a list \<Rightarrow> int \<Rightarrow> int \<Rightarrow> 'a list list \<Rightarrow> 'a list list option" where
  "chunk_loop array size' i chunks =
     (if i < int (length array)
      then chunk_loop array size' (i + size') (push chunks (js_slice array i (Some (i + size'))))
      else Some chunks)"

definition chunk :: "'a list \<Rightarrow> int \<Rightarrow> 'a list list option" where
  "chunk array size' = chunk_loop array size' 0 []"

text \<open>
  The partition as the specification words it: windows of a fixed size, the last one
  possibly shorter.
\<close>

function windows :: "nat \<Rightarrow> 'a list \<Rightarrow> 'a list list" where
  "windows n xs = (if n = 0 \<or> xs = [] then [] else take n xs # windows n (drop n xs))"
  by pat_completeness auto
termination
  by (relation "measure (\<lambda>(n, xs). length xs)") auto

declare windows.simps [simp del]

subsection \<open>paginate\<close>




section \<open>Date utilities\<close>

subsection \<open>diffInDays\<close>

text \<open>
  \<^verbatim>\<open>
  const msPerDay = 24 * 60 * 60 * 1000;
  const utc1 = Date.UTC(date1.getFullYear(), date1.getMonth(), date1.getDate());
  const utc2 = Date.UTC(date2.getFullYear(), date2.getMonth(), date2.getDate());
  return Math.floor((utc1 - utc2) / msPerDay);
  \<close>
  A date is modelled by what its getters return: the local year, month and day of the
  month of a valid Date, and \<open>NaN\<close> three times for the Invalid Date. \<open>Date_UTC\<close> is
  ECMAScript's \<open>Date.UTC\<close> on a year, a month and a day of the month: an argument that
  is not finite gives \<open>NaN\<close>; a year from 0 to 99 counts from 1900; the month may
  overflow into the year; the time value is the day number of the calendar day, counted
  from 1970-01-01, times the milliseconds of a day; and \<open>TimeClip\<close> turns a time value
  beyond 8.64e15 milliseconds on either side into \<open>NaN\<close>.
\<close>

datatype jsdate = Invalid_Date | Local_Date int int int

fun getFullYear :: "jsdate \<Rightarrow> jsnum" where
  "getFullYear Invalid_Date = NaN"
| "getFullYear (Local_Date year month date) = Num year"

fun getMonth :: "jsdate \<Rightarrow> jsnum" where
  "getMonth Invalid_Date = NaN"
| "getMonth (Local_Date year month date) = Num month"

fun getDate :: "jsdate \<Rightarrow> jsnum" where
  "getDate Invalid_Date = NaN"
| "getDate (Local_Date year month date) = Num date"

definition InLeapYear :: "int \<Rightarrow> bool" where
  "InLeapYear y = (y mod 4 = 0 \<and> (y mod 400 = 0 \<or> y mod 100 \<noteq> 0))"

definition DayFromYear :: "int \<Rightarrow> int" where
  "DayFromYear y =
     365 * (y - 1970) + (y - 1969) div 4 - (y - 1901) div 100 + (y - 1601) div 400"

definition DaysBeforeMonth :: "int \<Rightarrow> nat \<Rightarrow> int" where
  "DaysBeforeMonth y m =
     [0, 31, 59, 90, 120, 151, 181, 212, 243, 273, 304, 334] ! m
     + (if InLeapYear y \<and> 2 \<le> m then 1 else 0)"

definition MakeDay :: "int \<Rightarrow> int \<Rightarrow> int \<Rightarrow> int" where
  "MakeDay year month date =
     (let ym = year + month div 12;
          mn = month mod 12
      in DayFromYear ym + DaysBeforeMonth ym (nat mn) + date - 1)"

definition TimeClip :: "int \<Rightarrow> jsnum" where
  "TimeClip time = (if 8640000000000000 < \<bar>time\<bar> then NaN else Num time)"

fun Date_UTC :: "jsnum \<Rightarrow> jsnum \<Rightarrow> jsnum \<Rightarrow> jsnum" where
  "Date_UTC (Num year) (Num month) (Num date) =
     (let yr = (if 0 \<le> year \<and> year \<le> 99 then 1900 + year else year)
      in TimeClip (MakeDay yr month date * 86400000))"
| "Date_UTC year month date = NaN"

definition diffInDays :: "jsdate \<Rightarrow> jsdate \<Rightarrow> jsnum" where
  "diffInDays date1 date2 =
     (let msPerDay = 24 * 60 * 60 * 1000;
          utc1 = Date_UTC (getFullYear date1) (getMonth date1) (getDate date1);
          utc2 = Date_UTC (getFullYear date2) (getMonth date2) (getDate date2)
      in Math_floor_quotient (js_minus utc1 utc2) msPerDay)"

text \<open>The timestamp that \<open>diffInDays\<close> takes of a date: the UTC midnight of its local day.\<close>

definition utc_midnight :: "jsdate \<Rightarrow> jsnum" where
  "utc_midnight d = Date_UTC (getFullYear d) (getMonth d) (getDate d)"

section \<open>Random utilities\<close>

subsection \<open>The pseudo-random source\<close>

text \<open>
  \<open>Math.random()\<close> returns a number from 0 up to but not including 1. The source of
  the draws is an input stream; every function that draws takes the stream and returns
  what is left of it. A draw is a real number, and the arithmetic on it is exact.
\<close>

typedef unit_draw = "{r :: real. 0 \<le> r \<and> r < 1}"
  by (rule exI [of _ 0]) simp

type_synonym rng = "unit_draw stream"

definition Math_random :: "rng \<Rightarrow> real \<times> rng" where
  "Math_random g = (Rep_unit_draw (shd g), stl g)"

text \<open>\<^verbatim>\<open>Math.floor(Math.random() * max)\<close>\<close>

definition randomInt :: "int \<Rightarrow> rng \<Rightarrow> int \<times> rng" where
  "randomInt max' g = (let (r, g') = Math_random g in (\<lfloor>r * real_of_int max'\<rfloor>, g'))"

subsection \<open>randomString and randomPassword\<close>

text \<open>
  \<^verbatim>\<open>
  let result = '';
  for (let i = 0; i < length; i++) { result += charset[randomInt(charset.length)]; }
  return result;
  \<close>
  \<open>charset[k]\<close> beyond the string is \<open>undefined\<close>, which \<open>+=\<close> appends as the text
  \<open>undefined\<close>.
\<close>

definition index_text :: "jsstring \<Rightarrow> int \<Rightarrow> jsstring" where
  "index_text s k = (if 0 \<le> k \<and> k < int (length s) then [s ! nat k] else utf16 ''undefined'')"

function randomString_loop :: "int \<Rightarrow> jsstring \<Rightarrow> int \<Rightarrow> jsstring \<Rightarrow> rng \<Rightarrow> jsstring \<times> rng" where
  "randomString_loop length' charset i result g =
     (if i < length' then
        (let (k, g') = randomInt (int (length charset)) g
         in randomString_loop length' charset (i + 1) (result @ index_text charset k) g')
      else (result, g))"
  by pat_completeness auto
termination
  by (relation "measure (\<lambda>(length', charset, i, result, g). nat (length' - i))") auto

definition randomString :: "int \<Rightarrow> jsstring \<Rightarrow> rng \<Rightarrow> jsstring \<times> rng" where
  "randomString length' charset g = randomString_loop length' charset 0 [] g"

text \<open>
  \<^verbatim>\<open>
  const { uppercase = true, lowercase = true, numbers = true, special = true } = options;
  let charset = '';
  if (lowercase) charset += 'abcdefghijklmnopqrstuvwxyz';
  if (uppercase) charset += 'ABCDEFGHIJKLMNOPQRSTUVWXYZ';
  if (numbers) charset += '0123456789';
  if (special) charset += '!@#$%^&*()_+-=[]{}|;:,.<>?';
  if (charset.length === 0) { throw new Error('At least one character type must be enabled'); }
  return randomString(length, charset);
  \<close>
\<close>

record random_password_options =
  uppercase :: "bool option"
  lowercase :: "bool option"
  numbers :: "bool option"
  special :: "bool option"

definition lowercase_chars :: jsstring where
  "lowercase_chars = utf16 ''abcdefghijklmnopqrstuvwxyz''"

definition uppercase_chars :: jsstring where
  "uppercase_chars = utf16 ''ABCDEFGHIJKLMNOPQRSTUVWXYZ''"

definition number_chars :: jsstring where
  "number_chars = utf16 ''0123456789''"

definition special_chars :: jsstring where
  "special_chars = utf16 ''!@#$%^&*()_+-=[]{}|;:,.<>?''"

definition no_character_type :: js_error where
  "no_character_type = Error (utf16 ''At least one character type must be enabled'')"

definition randomPassword ::
  "int \<Rightarrow> random_password_options \<Rightarrow> rng \<Rightarrow> js_error + (jsstring \<times> rng)" where
  "randomPassword length' options g =
     (let uppercase' = (case uppercase options of None \<Rightarrow> True | Some v \<Rightarrow> v);
          lowercase' = (case lowercase options of None \<Rightarrow> True | Some v \<Rightarrow> v);
          numbers' = (case numbers options of None \<Rightarrow> True | Some v \<Rightarrow> v);
          special' = (case special options of None \<Rightarrow> True | Some v \<Rightarrow> v);
          charset0 = [];
          charset1 = (if lowercase' then charset0 @ lowercase_chars else charset0);
          charset2 = (if uppercase' then charset1 @ uppercase_chars else charset1);
          charset3 = (if numbers' then charset2 @ number_chars else charset2);
          charset4 = (if special' then charset3 @ special_chars else charset3)
      in if length charset4 = 0 then Inl no_character_type
         else Inr (randomString length' charset4 g))"

text \<open>
  The toggles as the specification words them: a toggle is enabled unless it is given
  as false, and the character set is the union of the enabled classes.
\<close>

definition on_by_default :: "bool option \<Rightarrow> bool" where
  "on_by_default toggle = (case toggle of None \<Rightarrow> True | Some b \<Rightarrow> b)"

definition enabled_chars :: "random_password_options \<Rightarrow> jsstring" where
  "enabled_chars options =
     (if on_by_default (lowercase options) then lowercase_chars else [])
     @ (if on_by_default (uppercase options) then uppercase_chars else [])
     @ (if on_by_default (numbers options) then number_chars else [])
     @ (if on_by_default (special options) then special_chars else [])"

definition all_disabled :: random_password_options where
  "all_disabled =
     \<lparr>uppercase = Some False, lowercase = Some False, numbers = Some False,
      special = Some False\<rparr>"

definition digits_only :: random_password_options where
  "digits_only =
     \<lparr>uppercase = Some False, lowercase = Some False, numbers = None, special = Some False\<rparr>"

subsection \<open>randomElement, randomElements and shuffle\<close>

text \<open>\<^verbatim>\<open>return array[randomInt(array.length)];\<close> (\<open>None\<close> is \<open>undefined\<close>)\<close>

definition randomElement :: "'a list \<Rightarrow> rng \<Rightarrow> 'a option \<times> rng" where
  "randomElement array g =
     (let (k, g') = randomInt (int (length array)) g
      in (if 0 \<le> k \<and> k < int (length array) then Some (array ! nat k) else None, g'))"

text \<open>
  \<^verbatim>\<open>
  const shuffled = [...array].sort(() => 0.5 - Math.random());
  return shuffled.slice(0, Math.min(count, array.length));
  \<close>
  \<open>Array.prototype.sort\<close> is the platform's, and under a comparison function that is not
  consistent its order is implementation-defined: the sort is a parameter. A comparison
  function takes the stream and returns what is left of it, as the one here draws.
\<close>

type_synonym 'a comparefn = "'a \<Rightarrow> 'a \<Rightarrow> rng \<Rightarrow> real \<times> rng"
type_synonym 'a array_sort = "'a comparefn \<Rightarrow> 'a list \<Rightarrow> rng \<Rightarrow> 'a list \<times> rng"

definition random_comparefn :: "'a comparefn" where
  "random_comparefn a b g = (let (r, g') = Math_random g in (0.5 - r, g'))"

definition randomElements :: "'a array_sort \<Rightarrow> 'a list \<Rightarrow> int \<Rightarrow> rng \<Rightarrow> 'a list \<times> rng" where
  "randomElements array_sort array count' g =
     (let (shuffled, g') = array_sort random_comparefn array g
      in (js_slice shuffled 0 (Some (min count' (int (length array)))), g'))"

text \<open>
  An insertion sort, as engines use on short arrays: each element in turn moves left
  past every element that the comparison function puts after it. \<open>insert_sorted\<close> takes
  the sorted part in reverse, its last element first.
\<close>

fun insert_sorted :: "'a comparefn \<Rightarrow> 'a \<Rightarrow> 'a list \<Rightarrow> rng \<Rightarrow> 'a list \<times> rng" where
  "insert_sorted comparefn x [] g = ([x], g)"
| "insert_sorted comparefn x (y # ys) g =
     (let (v, g') = comparefn y x g
      in if v > 0 then (let (zs, g'') = insert_sorted comparefn x ys g' in (y # zs, g''))
         else (x # y # ys, g'))"

fun insertion_sort_from :: "'a comparefn \<Rightarrow> 'a list \<Rightarrow> 'a list \<Rightarrow> rng \<Rightarrow> 'a list \<times> rng" where
  "insertion_sort_from comparefn sorted_rev [] g = (rev sorted_rev, g)"
| "insertion_sort_from comparefn sorted_rev (x # xs) g =
     (let (sorted_rev', g') = insert_sorted comparefn x sorted_rev g
      in insertion_sort_from comparefn sorted_rev' xs g')"

definition insertion_sort :: "'a array_sort" where
  "insertion_sort comparefn array g = insertion_sort_from comparefn [] array g"

text \<open>
  \<^verbatim>\<open>
  const result = [...array];
  for (let i = result.length - 1; i > 0; i--) {
    const j = randomInt(i + 1);
    [result[i], result[j]] = [result[j], result[i]];
  }
  return result;
  \<close>
\<close>

definition swap_elements :: "'a list \<Rightarrow> int \<Rightarrow> int \<Rightarrow> 'a list" where
  "swap_elements result i j =
     (let values = (result ! nat j, result ! nat i)
      in (result[nat i := fst values])[nat j := snd values])"

function shuffle_loop :: "'a list \<Rightarrow> int \<Rightarrow> rng \<Rightarrow> 'a list \<times> rng" where
  "shuffle_loop result i g =
     (if i > 0 then
        (let (j, g') = randomInt (i + 1) g
         in shuffle_loop (swap_elements result i j) (i - 1) g')
      else (result, g))"
  by pat_completeness auto
termination
  by (relation "measure (\<lambda>(result, i, g). nat i)") auto

definition shuffle :: "'a list \<Rightarrow> rng \<Rightarrow> 'a list \<times> rng" where
  "shuffle array g = (let result = array in shuffle_loop result (int (length result) - 1) g)"

text \<open>
  The Fisher-Yates shuffle as the specification words it: each element, from the last
  index downward, is exchanged with the element at a uniformly chosen earlier or equal
  index. \<open>uniform_index n u\<close> is the index among \<open>n\<close> that the draw \<open>u\<close> chooses.
\<close>

definition uniform_index :: "nat \<Rightarrow> unit_draw \<Rightarrow> nat" where
  "uniform_index n u = nat \<lfloor>Rep_unit_draw u * real n\<rfloor>"

definition exchange :: "'a list \<Rightarrow> nat \<Rightarrow> nat \<Rightarrow> 'a list" where
  "exchange xs i j = xs[i := xs ! j, j := xs ! i]"

fun fisher_yates_down :: "nat \<Rightarrow> 'a list \<Rightarrow> rng \<Rightarrow> 'a list" where
  "fisher_yates_down 0 xs g = xs"
| "fisher_yates_down (Suc i) xs g =
     fisher_yates_down i (exchange xs (Suc i) (uniform_index (Suc (Suc i)) (shd g))) (stl g)"

definition fisher_yates :: "'a list \<Rightarrow> rng \<Rightarrow> 'a list" where
  "fisher_yates xs g = fisher_yates_down (length xs - 1) xs g"

text \<open>The stream whose every draw is \<open>1/4\<close>.\<close>

definition quarter_draws :: rng where
  "quarter_draws = sconst (Abs_unit_draw (1/4))"

section \<open>Properties of the format utilities\<close>

subsection \<open>slice\<close>

lemma js_slice_nonneg:
  "0 \<le> s \<Longrightarrow> 0 \<le> n \<Longrightarrow> js_slice xs s (Some (s + n)) = take (nat n) (drop (nat s) xs)"
  by (auto simp: js_slice_def slice_index_def Let_def min_def nat_diff_distrib nat_add_distrib)

lemma js_slice_prefix: "0 \<le> n \<Longrightarrow> js_slice xs 0 (Some n) = take (nat n) xs"
  by (simp add: js_slice_def slice_index_def Let_def min_def)

lemma js_slice_suffix:
  "0 < n \<Longrightarrow> js_slice xs (- n) None = drop (length xs - nat n) xs"
  by (auto simp: js_slice_def slice_index_def Let_def max_def nat_diff_distrib nat_add_distrib)

lemma js_slice_minus_zero: "js_slice xs (- 0) None = xs"
  by (simp add: js_slice_def slice_index_def)

subsection \<open>formatNumber\<close>

lemmas format_eval =
  formatNumber_def utf16_def separator_position_def not_word_boundary_def word_char_at_def
  is_word_char_def is_digit_def is_upper_def is_lower_def starts_with_digit_def
  last_unit_def DOLLAR_def GRAVE_def SQUOTE_def

text \<open>The examples of the documentation, and a negative number with two decimals.\<close>

lemma formatNumber_integer_part:
  "formatNumber (utf16 ''1234567'') (utf16 '','') = utf16 ''1,234,567''
   \<and> formatNumber (utf16 ''1234567'') (utf16 '' '') = utf16 ''1 234 567''
   \<and> formatNumber (utf16 ''-1234567.25'') (utf16 '','') = utf16 ''-1,234,567.25''"
  by (simp add: format_eval)

text \<open>A separator with dollar patterns: the match itself, and the captured group.\<close>

lemma formatNumber_dollar_patterns:
  "formatNumber (utf16 ''1234567'') (utf16 ''$&'') = utf16 ''1234567''
   \<and> formatNumber (utf16 ''1234567'') (utf16 ''$$'') = utf16 ''1$234$567''
   \<and> formatNumber (utf16 ''1234567'') (utf16 ''$1,'') = utf16 ''1567,234567,567''"
  by (simp add: format_eval)

text \<open>
  C2. The claim: the separator goes to the left of the decimal point only, and the
  digits after the decimal point of a number such as 1234.5678 receive none. The code
  does otherwise: \<open>\B(?=(\d{3})+(?!\d))\<close> looks at digits only, so it also matches inside
  a fractional part of four digits or more. \<open>(1234.5678).toString()\<close> is \<open>1234.5678\<close>,
  and \<open>formatNumber(1234.5678)\<close> is \<open>1,234.5,678\<close>.
\<close>

theorem formatNumber_separates_fraction:
  "formatNumber (utf16 ''1234.5678'') (utf16 '','') = utf16 ''1,234.5,678''"
  by (simp add: format_eval)

subsection \<open>mask\<close>

text \<open>With a positive \<open>visibleEnd\<close> the result is what the documentation describes.\<close>

lemma mask_visible_end_positive:
  assumes "0 \<le> visibleStart" and "0 < visibleEnd"
    and "visibleStart + visibleEnd < int (length text)"
  shows "mask text visibleStart visibleEnd maskChar =
     Inr (take (nat visibleStart) text
          @ concat (replicate (length text - nat visibleStart - nat visibleEnd) maskChar)
          @ drop (length text - nat visibleEnd) text)"
proof -
  have "repeat maskChar (int (length text) - visibleStart - visibleEnd) =
        Inr (concat (replicate (length text - nat visibleStart - nat visibleEnd) maskChar))"
    using assms by (simp add: repeat_def nat_diff_distrib)
  then show ?thesis
    using assms by (simp add: mask_def Let_def js_slice_prefix js_slice_suffix)
qed

lemma mask_short: "int (length text) \<le> visibleStart + visibleEnd \<Longrightarrow>
  mask text visibleStart visibleEnd maskChar = Inr text"
  by (simp add: mask_def)

text \<open>The count given to \<open>repeat\<close> is positive behind the guard: \<open>mask\<close> raises nothing.\<close>

lemma mask_never_raises: "\<not> isl (mask text visibleStart visibleEnd maskChar)"
  by (simp add: mask_def repeat_def Let_def)

text \<open>
  C3. The claim: beyond \<open>visibleStart + visibleEnd\<close> characters the result is the first
  \<open>visibleStart\<close> characters, the mask, and the last \<open>visibleEnd\<close> characters, as long as
  the text, also for \<open>visibleEnd = 0\<close>. The code takes the end by \<open>text.slice(-visibleEnd)\<close>,
  and \<open>slice(-0)\<close> is the whole text: \<open>mask('1234567890', 4, 0)\<close> is the first four
  characters, six mask characters and then all ten characters again.
\<close>

theorem mask_visible_end_zero:
  "mask (utf16 ''1234567890'') 4 0 (utf16 ''*'') = Inr (utf16 ''1234******1234567890'')"
  by (simp add: mask_def js_slice_def slice_index_def repeat_def utf16_def eval_nat_numeral)

subsection \<open>escapeHtml and unescapeHtml\<close>

lemma is_reserved_cases:
  "is_reserved c \<longleftrightarrow>
     c = of_char CHR ''&'' \<or> c = of_char CHR ''<'' \<or> c = of_char CHR ''>''
     \<or> c = DQUOTE \<or> c = SQUOTE"
  by (auto simp: is_reserved_def)

lemma escapeHtml_unit: "escapeHtml [c] = entity_of c"
  by (auto simp: is_reserved_cases entity_of_def escape_map_def DQUOTE_def SQUOTE_def)

lemma escapeHtml_entities: "escapeHtml s = concat (map entity_of s)"
proof (induction s)
  case Nil
  show ?case by simp
next
  case (Cons c cs)
  have "escapeHtml (c # cs) = escapeHtml [c] @ escapeHtml cs" by simp
  then show ?case using Cons.IH by (simp only: escapeHtml_unit list.map concat.simps)
qed

lemma unescape_amp:
  "unescapeHtml (utf16 ''&amp;'' @ rest) = of_char CHR ''&'' # unescapeHtml rest"
  by (simp add: utf16_def unescape_map_def)

lemma unescape_lt:
  "unescapeHtml (utf16 ''&lt;'' @ rest) = of_char CHR ''<'' # unescapeHtml rest"
  by (simp add: utf16_def unescape_map_def)

lemma unescape_gt:
  "unescapeHtml (utf16 ''&gt;'' @ rest) = of_char CHR ''>'' # unescapeHtml rest"
  by (simp add: utf16_def unescape_map_def)

lemma unescape_quot:
  "unescapeHtml (utf16 ''&quot;'' @ rest) = DQUOTE # unescapeHtml rest"
  by (simp add: utf16_def unescape_map_def)

lemma unescape_apos:
  "unescapeHtml (utf16 ''&#039;'' @ rest) = SQUOTE # unescapeHtml rest"
  by (simp add: utf16_def unescape_map_def)

lemma match_entity_None:
  "\<not> starts_with_entity s \<Longrightarrow> match_entity unescape_map s = None"
  by (simp add: starts_with_entity_def unescape_map_def)

lemma unescape_copy:
  "\<not> starts_with_entity (c # rest) \<Longrightarrow> unescapeHtml (c # rest) = c # unescapeHtml rest"
  by (simp add: match_entity_None)

lemma no_entity_without_amp:
  "c \<noteq> of_char CHR ''&'' \<Longrightarrow> \<not> starts_with_entity (c # rest)"
  by (auto simp: starts_with_entity_def utf16_def)

lemma unescape_entity_of:
  "unescapeHtml (entity_of c @ rest) = c # unescapeHtml rest"
proof (cases "is_reserved c")
  case True
  then consider "c = of_char CHR ''&''" | "c = of_char CHR ''<''" | "c = of_char CHR ''>''"
    | "c = DQUOTE" | "c = SQUOTE"
    unfolding is_reserved_cases by blast
  then show ?thesis
  proof cases
    case 1
    then have "entity_of c = utf16 ''&amp;''" by (simp add: entity_of_def)
    then show ?thesis using unescape_amp 1 by simp
  next
    case 2
    then have "entity_of c = utf16 ''&lt;''" by (simp add: entity_of_def)
    then show ?thesis using unescape_lt 2 by simp
  next
    case 3
    then have "entity_of c = utf16 ''&gt;''" by (simp add: entity_of_def)
    then show ?thesis using unescape_gt 3 by simp
  next
    case 4
    then have "entity_of c = utf16 ''&quot;''" by (simp add: entity_of_def DQUOTE_def)
    then show ?thesis using unescape_quot 4 by simp
  next
    case 5
    then have "entity_of c = utf16 ''&#039;''"
      by (simp add: entity_of_def DQUOTE_def SQUOTE_def)
    then show ?thesis using unescape_apos 5 by simp
  qed
next
  case False
  then have amp: "c \<noteq> of_char CHR ''&''" and "entity_of c = [c]"
    by (auto simp: is_reserved_cases entity_of_def)
  then show ?thesis using unescape_copy [OF no_entity_without_amp [OF amp]] by simp
qed

lemma unescape_escape: "unescapeHtml (escapeHtml s) = s"
proof (induction s)
  case Nil
  show ?case by simp
next
  case (Cons c cs)
  have "unescapeHtml (escapeHtml (c # cs)) = unescapeHtml (entity_of c @ escapeHtml cs)"
    by (simp add: escapeHtml_entities)
  also have "\<dots> = c # unescapeHtml (escapeHtml cs)" by (rule unescape_entity_of)
  finally show ?case using Cons.IH by simp
qed

text \<open>
  C8. For every string \<open>s\<close>, \<open>unescapeHtml(escapeHtml(s)) = s\<close>. \<open>escapeHtml\<close> replaces, in
  one pass, each of the five reserved characters by its entity and copies every other
  code unit. \<open>unescapeHtml\<close> replaces each of the five known entities by its character,
  and where none of them stands it copies the code unit, so that an unknown entity
  stays as it is.
\<close>

theorem html_escape_roundtrip:
  "unescapeHtml (escapeHtml s) = s
   \<and> escapeHtml s = concat (map entity_of s)
   \<and> unescapeHtml (utf16 ''&amp;'' @ t) = of_char CHR ''&'' # unescapeHtml t
   \<and> unescapeHtml (utf16 ''&lt;'' @ t) = of_char CHR ''<'' # unescapeHtml t
   \<and> unescapeHtml (utf16 ''&gt;'' @ t) = of_char CHR ''>'' # unescapeHtml t
   \<and> unescapeHtml (utf16 ''&quot;'' @ t) = DQUOTE # unescapeHtml t
   \<and> unescapeHtml (utf16 ''&#039;'' @ t) = SQUOTE # unescapeHtml t
   \<and> (\<not> starts_with_entity (c # t) \<longrightarrow> unescapeHtml (c # t) = c # unescapeHtml t)"
  using unescape_escape escapeHtml_entities unescape_amp unescape_lt unescape_gt
    unescape_quot unescape_apos unescape_copy
  by blast

theorem html_escape_roundtrip_witness:
  "unescapeHtml (escapeHtml (utf16 ''<a href=x>Q&amp;A</a>'')) = utf16 ''<a href=x>Q&amp;A</a>''
   \<and> escapeHtml (utf16 ''<a href=x>Q&amp;A</a>'')
       = utf16 ''&lt;a href=x&gt;Q&amp;amp;A&lt;/a&gt;''
   \<and> \<not> starts_with_entity (of_char CHR ''&'' # utf16 ''nbsp;'')
   \<and> unescapeHtml (of_char CHR ''&'' # utf16 ''nbsp;'')
       = of_char CHR ''&'' # unescapeHtml (utf16 ''nbsp;'')"
proof -
  let ?s = "utf16 ''<a href=x>Q&amp;A</a>''"
  let ?t = "utf16 ''nbsp;''"
  let ?c = "of_char CHR ''&'' :: code_unit"
  note inst = html_escape_roundtrip [of ?s ?t ?c]
  have unknown: "\<not> starts_with_entity (?c # ?t)"
    by (simp add: starts_with_entity_def utf16_def)
  have entities: "concat (map entity_of ?s) = utf16 ''&lt;a href=x&gt;Q&amp;amp;A&lt;/a&gt;''"
    by (simp add: utf16_def entity_of_def DQUOTE_def SQUOTE_def)
  have a: "unescapeHtml (escapeHtml ?s) = ?s" using inst by blast
  have "escapeHtml ?s = concat (map entity_of ?s)" using inst by blast
  then have b: "escapeHtml ?s = utf16 ''&lt;a href=x&gt;Q&amp;amp;A&lt;/a&gt;''"
    using entities by (rule trans)
  have c: "unescapeHtml (?c # ?t) = ?c # unescapeHtml ?t" using inst unknown by blast
  from a b unknown c show ?thesis by (intro conjI)
qed

section \<open>Properties of the validation utilities\<close>

subsection \<open>isValidCreditCard\<close>

lemma luhn_sum_alternating: "luhn_sum ds = luhn_alternating False ds"
  by (induction ds rule: luhn_sum.induct) simp_all

text \<open>
  The loop, entered at index \<open>k - 1\<close>, adds the alternating sum of the first \<open>k\<close> digits
  read from the right.
\<close>

lemma luhn_loop_alternating:
  "k \<le> length cleaned \<Longrightarrow>
   luhn_loop cleaned (int k - 1) sumv isEven =
     sumv + luhn_alternating isEven (rev (digit_values (take k cleaned)))"
proof (induction k arbitrary: sumv isEven)
  case 0
  show ?case by (subst luhn_loop.simps) (simp add: digit_values_def)
next
  case (Suc k)
  let ?digit = "parseInt10 (cleaned ! k)"
  let ?added = "if isEven then luhn_double ?digit else ?digit"
  from Suc.prems have k: "k < length cleaned" by simp
  have "luhn_loop cleaned (int (Suc k) - 1) sumv isEven =
        luhn_loop cleaned (int k - 1) (sumv + ?added) (\<not> isEven)"
    by (subst luhn_loop.simps) (simp add: Let_def luhn_double_def mult.commute)
  also have "\<dots> = sumv + ?added
      + luhn_alternating (\<not> isEven) (rev (digit_values (take k cleaned)))"
    using Suc.IH k by simp
  finally show ?case using k
    by (simp add: take_Suc_conv_app_nth digit_values_def parseInt10_def)
qed

lemma luhn_loop_sum:
  "luhn_loop cleaned (int (length cleaned) - 1) 0 False = luhn_sum (rev (digit_values cleaned))"
  using luhn_loop_alternating [of "length cleaned" cleaned 0 False]
  by (simp add: luhn_sum_alternating)

lemma no_non_digit: "(\<not> list_ex (\<lambda>c. \<not> is_digit c) s) = list_all is_digit s"
  by (simp add: list_ex_iff list_all_iff)

lemma isValidCreditCard_rule:
  "isValidCreditCard cardNumber \<longleftrightarrow>
     strip_whitespace cardNumber \<noteq> [] \<and> luhn_rule cardNumber"
proof -
  let ?cleaned = "strip_whitespace cardNumber"
  have "isValidCreditCard cardNumber \<longleftrightarrow>
        ?cleaned \<noteq> [] \<and> list_all is_digit ?cleaned
        \<and> luhn_sum (rev (digit_values ?cleaned)) mod 10 = 0"
    unfolding isValidCreditCard_def strip_whitespace_def [symmetric] Let_def luhn_loop_sum
    by auto
  also have "\<dots> \<longleftrightarrow> ?cleaned \<noteq> [] \<and> luhn_rule cardNumber"
    unfolding luhn_rule_def no_non_digit [symmetric] by auto
  finally show ?thesis .
qed

lemmas card_eval = isValidCreditCard_def utf16_def is_space_def is_digit_def parseInt10_def

lemma card_4532: "isValidCreditCard (utf16 ''4532015112830366'')"
  by (simp add: card_eval)

lemma card_6011: "isValidCreditCard (utf16 ''6011000990139424'')"
  by (simp add: card_eval)

lemma card_1234: "\<not> isValidCreditCard (utf16 ''1234567890123456'')"
  by (simp add: card_eval)

text \<open>
  C1, as the claim states it: once the whitespace is stripped, a remaining character
  that is not a digit gives false, and otherwise the result is true exactly when the
  Luhn sum is divisible by 10 (\<open>luhn_rule\<close>). The empty string, and a string of
  whitespace only, has no such character and the sum 0, so the rule gives true; the
  code tests \<open>/^\d+$/\<close>, which asks for at least one digit, and returns false.
\<close>

theorem luhn_rule_empty_counterexample:
  "luhn_rule [] \<and> \<not> isValidCreditCard []
   \<and> luhn_rule (utf16 ''  '') \<and> \<not> isValidCreditCard (utf16 ''  '')"
  by (simp add: isValidCreditCard_def luhn_rule_def strip_whitespace_def digit_values_def
      utf16_def is_space_def)

text \<open>
  C1, as amended: \<open>isValidCreditCard\<close> is true exactly when the input, its whitespace
  stripped, is not empty, holds digits only, and has a Luhn sum (digits read from the
  least significant one, every second digit from the right doubled, 9 subtracted from
  a doubled value above 9) divisible by 10. It is true of 4532015112830366 and of
  6011000990139424 and false of 1234567890123456.
\<close>

theorem isValidCreditCard_luhn:
  "(isValidCreditCard cardNumber \<longleftrightarrow>
      strip_whitespace cardNumber \<noteq> [] \<and> luhn_rule cardNumber)
   \<and> isValidCreditCard (utf16 ''4532015112830366'')
   \<and> isValidCreditCard (utf16 ''6011000990139424'')
   \<and> \<not> isValidCreditCard (utf16 ''1234567890123456'')"
  using isValidCreditCard_rule card_4532 card_6011 card_1234 by blast

theorem isValidCreditCard_luhn_witness:
  "isValidCreditCard (utf16 ''4532 0151 1283 0366'')
   \<and> strip_whitespace (utf16 ''4532 0151 1283 0366'') = utf16 ''4532015112830366''
   \<and> luhn_sum (rev (digit_values (utf16 ''4532015112830366''))) = 50"
proof -
  have stripped:
    "strip_whitespace (utf16 ''4532 0151 1283 0366'') = utf16 ''4532015112830366''"
    by (simp add: strip_whitespace_def utf16_def is_space_def)
  have total: "luhn_sum (rev (digit_values (utf16 ''4532015112830366''))) = 50"
    by (simp add: digit_values_def utf16_def luhn_double_def)
  have "luhn_rule (utf16 ''4532 0151 1283 0366'')"
    unfolding luhn_rule_def stripped total by (simp add: utf16_def is_digit_def)
  moreover have "strip_whitespace (utf16 ''4532 0151 1283 0366'') \<noteq> []"
    unfolding stripped by (simp add: utf16_def)
  ultimately have "isValidCreditCard (utf16 ''4532 0151 1283 0366'')"
    using isValidCreditCard_luhn [of "utf16 ''4532 0151 1283 0366''"] by blast
  then show ?thesis using stripped total by (intro conjI)
qed

subsection \<open>validatePassword\<close>

lemma none_matches: "(\<not> list_ex P xs) = (filter P xs = [])"
  by (induction xs) auto

lemma validatePassword_errors:
  "errors (validatePassword password options) =
     failed_messages (password_checks password
       (case minLength options of None \<Rightarrow> 8 | Some v \<Rightarrow> v)
       (case requireUppercase options of None \<Rightarrow> True | Some v \<Rightarrow> v)
       (case requireLowercase options of None \<Rightarrow> True | Some v \<Rightarrow> v)
       (case requireNumbers options of None \<Rightarrow> True | Some v \<Rightarrow> v)
       (case requireSpecialChars options of None \<Rightarrow> True | Some v \<Rightarrow> v))"
  by (simp add: validatePassword_def failed_messages_def password_checks_def Let_def
      push_def none_matches)

lemma validatePassword_isValid:
  "isValid (validatePassword password options)
     = (errors (validatePassword password options) = [])"
  by (simp add: validatePassword_def Let_def)

lemma validatePassword_defaults:
  "validatePassword password no_options =
     validatePassword password
       \<lparr>minLength = Some 8, requireUppercase = Some True, requireLowercase = Some True,
        requireNumbers = Some True, requireSpecialChars = Some True\<rparr>"
  by (simp add: validatePassword_def no_options_def)

text \<open>
  C5. For every password and every configuration of the options, the errors of
  \<open>validatePassword\<close> are exactly the messages of the enabled checks that fail, in the
  order length, uppercase, lowercase, numbers, special characters (the length check has
  no toggle); \<open>isValid\<close> is true exactly when there is no error; options left out count
  as all checks enabled and \<open>minLength = 8\<close>. The function is total and has no error
  result: nothing is raised.
\<close>

theorem validatePassword_result:
  "errors (validatePassword password options) =
     failed_messages (password_checks password
       (case minLength options of None \<Rightarrow> 8 | Some v \<Rightarrow> v)
       (case requireUppercase options of None \<Rightarrow> True | Some v \<Rightarrow> v)
       (case requireLowercase options of None \<Rightarrow> True | Some v \<Rightarrow> v)
       (case requireNumbers options of None \<Rightarrow> True | Some v \<Rightarrow> v)
       (case requireSpecialChars options of None \<Rightarrow> True | Some v \<Rightarrow> v))
   \<and> isValid (validatePassword password options)
       = (errors (validatePassword password options) = [])
   \<and> validatePassword password no_options =
       validatePassword password
         \<lparr>minLength = Some 8, requireUppercase = Some True, requireLowercase = Some True,
          requireNumbers = Some True, requireSpecialChars = Some True\<rparr>"
  using validatePassword_errors validatePassword_isValid validatePassword_defaults
  by (intro conjI)

theorem validatePassword_result_witness:
  "errors (validatePassword (utf16 ''abc'') no_options) =
     [utf16 ''Password must be at least 8 characters long'', uppercase_message,
      number_message, special_message]
   \<and> \<not> isValid (validatePassword (utf16 ''abc'') no_options)
   \<and> errors (validatePassword (utf16 ''MyP@ssw0rd'') no_options) = []
   \<and> isValid (validatePassword (utf16 ''MyP@ssw0rd'') no_options)"
proof -
  have abc: "failed_messages (password_checks (utf16 ''abc'') 8 True True True True) =
     [utf16 ''Password must be at least 8 characters long'', uppercase_message,
      number_message, special_message]"
    by (simp add: failed_messages_def password_checks_def utf16_def is_upper_def is_lower_def
        is_digit_def is_special_def DQUOTE_def length_message_def number_toString_def)
  have good: "failed_messages (password_checks (utf16 ''MyP@ssw0rd'') 8 True True True True) = []"
    by (simp add: failed_messages_def password_checks_def utf16_def is_upper_def is_lower_def
        is_digit_def is_special_def DQUOTE_def)
  have a: "errors (validatePassword (utf16 ''abc'') no_options) =
     [utf16 ''Password must be at least 8 characters long'', uppercase_message,
      number_message, special_message]"
    using validatePassword_result [of "utf16 ''abc''" no_options, THEN conjunct1] abc
    by (simp add: no_options_def)
  have b: "errors (validatePassword (utf16 ''MyP@ssw0rd'') no_options) = []"
    using validatePassword_result [of "utf16 ''MyP@ssw0rd''" no_options, THEN conjunct1] good
    by (simp add: no_options_def)
  have c: "\<not> isValid (validatePassword (utf16 ''abc'') no_options)"
    using validatePassword_result [of "utf16 ''abc''" no_options, THEN conjunct2, THEN conjunct1] a
    by simp
  have d: "isValid (validatePassword (utf16 ''MyP@ssw0rd'') no_options)"
    using validatePassword_result
      [of "utf16 ''MyP@ssw0rd''" no_options, THEN conjunct2, THEN conjunct1] b
    by simp
  from a c b d show ?thesis by (intro conjI)
qed

section \<open>Properties of the array utilities\<close>

subsection \<open>chunk\<close>

lemma concat_windows: "0 < n \<Longrightarrow> concat (windows n xs) = xs"
proof (induction n xs rule: windows.induct)
  case (1 n xs)
  then show ?case by (subst windows.simps) auto
qed

lemma windows_lengths: "w \<in> set (windows n xs) \<Longrightarrow> 0 < length w \<and> length w \<le> n"
proof (induction n xs rule: windows.induct)
  case (1 n xs)
  from "1.prems" have ne: "n \<noteq> 0" "xs \<noteq> []"
    and w: "w = take n xs \<or> w \<in> set (windows n (drop n xs))"
    by (subst (asm) windows.simps; simp split: if_splits)+
  from w show ?case
  proof
    assume "w = take n xs"
    then show ?thesis using ne by (cases xs) auto
  next
    assume "w \<in> set (windows n (drop n xs))"
    then show ?thesis using "1.IH" ne by simp
  qed
qed

lemma windows_full: "w \<in> set (butlast (windows n xs)) \<Longrightarrow> length w = n"
proof (induction n xs rule: windows.induct)
  case (1 n xs)
  show ?case
  proof (cases "n = 0 \<or> xs = []")
    case True
    then show ?thesis using "1.prems" by (subst (asm) windows.simps) simp
  next
    case False
    then have eq: "windows n xs = take n xs # windows n (drop n xs)"
      by (subst windows.simps) simp
    show ?thesis
    proof (cases "windows n (drop n xs) = []")
      case True
      then show ?thesis using "1.prems" eq by simp
    next
      case more: False
      then have "drop n xs \<noteq> []"
        by (subst (asm) windows.simps) (auto split: if_splits)
      then have len: "length (take n xs) = n" by simp
      from "1.prems" eq more
      have "w = take n xs \<or> w \<in> set (butlast (windows n (drop n xs)))" by simp
      then show ?thesis using len "1.IH" False by auto
    qed
  qed
qed

text \<open>With a size of at least 1 the loop returns, and what it adds are the windows.\<close>

lemma chunk_loop_windows:
  assumes "1 \<le> sz" and "0 \<le> i"
  shows "chunk_loop array sz i chunks = Some (chunks @ windows (nat sz) (drop (nat i) array))"
  using assms(2)
proof (induction "length array - nat i" arbitrary: i chunks rule: less_induct)
  case less
  show ?case
  proof (cases "i < int (length array)")
    case False
    then have "drop (nat i) array = []" using less.prems by simp
    then show ?thesis using False
      by (subst chunk_loop.simps) (simp add: windows.simps)
  next
    case True
    let ?window = "js_slice array i (Some (i + sz))"
    have window: "?window = take (nat sz) (drop (nat i) array)"
      using less.prems assms(1) by (simp add: js_slice_nonneg)
    have rest: "drop (nat i) array \<noteq> []" using True less.prems by simp
    have "chunk_loop array sz i chunks = chunk_loop array sz (i + sz) (push chunks ?window)"
      using True by (subst chunk_loop.simps) simp
    also have "\<dots> = Some (push chunks ?window @ windows (nat sz) (drop (nat (i + sz)) array))"
      using less.prems assms(1) True by (intro less.hyps) auto
    also have "\<dots> = Some (chunks @ windows (nat sz) (drop (nat i) array))"
      using rest assms(1) less.prems
      by (subst (2) windows.simps) (simp add: push_def window nat_add_distrib add.commute)
    finally show ?thesis .
  qed
qed

lemma chunk_windows: "1 \<le> sz \<Longrightarrow> chunk array sz = Some (windows (nat sz) array)"
  by (simp add: chunk_def chunk_loop_windows)

text \<open>
  With a size of 0 or less the index never passes the length: a call of the loop that
  returns has not started below the length.
\<close>

lemma chunk_loop_stuck:
  assumes "chunk_loop array sz i chunks = Some r" and "sz \<le> 0"
  shows "\<not> i < int (length array)"
proof -
  have "sz \<le> 0 \<longrightarrow> \<not> i < int (length array)"
  proof (rule chunk_loop.raw_induct
      [where P = "\<lambda>array sz i chunks r. sz \<le> 0 \<longrightarrow> \<not> i < int (length array)",
        OF _ assms(1)])
    fix f :: "'a list \<Rightarrow> int \<Rightarrow> int \<Rightarrow> 'a list list \<Rightarrow> 'a list list option"
    fix a :: "'a list" and s j :: int and cs y :: "'a list list"
    assume IH: "\<And>a s j cs y. f a s j cs = Some y \<Longrightarrow> s \<le> 0 \<longrightarrow> \<not> j < int (length a)"
    assume step: "(if j < int (length a)
        then f a s (j + s) (push cs (js_slice a j (Some (j + s)))) else Some cs) = Some y"
    show "s \<le> 0 \<longrightarrow> \<not> j < int (length a)"
    proof (intro impI notI)
      assume s: "s \<le> 0" and below: "j < int (length a)"
      from step below have "f a s (j + s) (push cs (js_slice a j (Some (j + s)))) = Some y"
        by simp
      from IH [OF this] s below show False by simp
    qed
  qed
  then show ?thesis using assms(2) by simp
qed

lemma chunk_diverges: "sz \<le> 0 \<Longrightarrow> array \<noteq> [] \<Longrightarrow> chunk array sz = None"
  using chunk_loop_stuck [of array sz 0 "[]"]
  by (cases "chunk array sz") (auto simp: chunk_def)

lemma chunk_empty: "chunk [] sz = Some []"
  by (simp add: chunk_def chunk_loop.simps)

text \<open>
  C10. \<open>chunk\<close> returns exactly when the size is at least 1 or the array is empty. For
  every array and every integer size of at least 1 it returns windows whose
  concatenation is the array, each of the size but the last, which has from 1 to the
  size elements. For a size of 0 or less and an array that is not empty the loop does
  not return.
\<close>

theorem chunk_terminates_iff:
  "(1 \<le> sz \<longrightarrow>
      (\<exists>chunks. chunk array sz = Some chunks \<and> concat chunks = array
         \<and> (\<forall>w \<in> set (butlast chunks). int (length w) = sz)
         \<and> (\<forall>w \<in> set chunks. 0 < length w \<and> int (length w) \<le> sz)))
   \<and> (sz \<le> 0 \<and> array \<noteq> [] \<longrightarrow> chunk array sz = None)
   \<and> (chunk array sz \<noteq> None \<longleftrightarrow> 1 \<le> sz \<or> array = [])"
proof (intro conjI impI)
  assume sz: "1 \<le> sz"
  have "concat (windows (nat sz) array) = array" using sz by (simp add: concat_windows)
  moreover have "\<forall>w \<in> set (butlast (windows (nat sz) array)). int (length w) = sz"
    using sz windows_full [of _ "nat sz" array] by auto
  moreover have "\<forall>w \<in> set (windows (nat sz) array). 0 < length w \<and> int (length w) \<le> sz"
  proof
    fix w assume "w \<in> set (windows (nat sz) array)"
    from windows_lengths [OF this] sz show "0 < length w \<and> int (length w) \<le> sz"
      by linarith
  qed
  ultimately show "\<exists>chunks. chunk array sz = Some chunks \<and> concat chunks = array
         \<and> (\<forall>w \<in> set (butlast chunks). int (length w) = sz)
         \<and> (\<forall>w \<in> set chunks. 0 < length w \<and> int (length w) \<le> sz)"
    using chunk_windows [OF sz, of array] by blast
next
  assume "sz \<le> 0 \<and> array \<noteq> []"
  then show "chunk array sz = None" by (simp add: chunk_diverges)
next
  show "chunk array sz \<noteq> None \<longleftrightarrow> 1 \<le> sz \<or> array = []"
  proof (cases "1 \<le> sz")
    case True
    then show ?thesis by (simp add: chunk_windows)
  next
    case False
    then have "sz \<le> 0" by simp
    then show ?thesis using chunk_diverges [of sz array] chunk_empty [of sz] False
      by (cases "array = []") auto
  qed
qed

theorem chunk_terminates_iff_witness:
  "chunk [1, 2, 3, 4, 5 :: int] 2 = Some [[1, 2], [3, 4], [5]]
   \<and> concat [[1, 2], [3, 4], [5 :: int]] = [1, 2, 3, 4, 5]
   \<and> chunk [1 :: int] 0 = None
   \<and> chunk [1 :: int] (- 1) = None
   \<and> chunk ([] :: int list) 0 \<noteq> None"
proof -
  have a: "chunk [1, 2, 3, 4, 5 :: int] 2 = Some [[1, 2], [3, 4], [5]]"
    by (simp add: chunk_def chunk_loop.simps js_slice_def slice_index_def push_def)
  have b: "chunk [1 :: int] 0 = None"
    using chunk_terminates_iff [of 0 "[1 :: int]"] by simp
  have c: "chunk [1 :: int] (- 1) = None"
    using chunk_terminates_iff [of "- 1" "[1 :: int]"] by simp
  have d: "chunk ([] :: int list) 0 \<noteq> None"
    using chunk_terminates_iff [of 0 "[] :: int list"] by simp
  from a b c d show ?thesis by simp
qed

subsection \<open>paginate\<close>













section \<open>Properties of the date utilities\<close>

subsection \<open>diffInDays\<close>

text \<open>
  \<open>Date.UTC\<close> returns \<open>NaN\<close> or the time value of a UTC midnight, a multiple of the
  milliseconds of a day.
\<close>

lemma Date_UTC_cases:
  "Date_UTC year month date = NaN
   \<or> (\<exists>u. Date_UTC year month date = Num u \<and> 86400000 dvd u)"
  by (cases year; cases month; cases date) (simp_all add: TimeClip_def Let_def)

lemma utc_midnight_cases:
  "utc_midnight d = NaN \<or> (\<exists>u. utc_midnight d = Num u \<and> 86400000 dvd u)"
  unfolding utc_midnight_def by (rule Date_UTC_cases)

lemma diffInDays_utc_midnight:
  "diffInDays a b = Math_floor_quotient (js_minus (utc_midnight a) (utc_midnight b)) 86400000"
  by (simp add: diffInDays_def utc_midnight_def)

text \<open>The quotient under the floor is a quotient of integers.\<close>

lemma diffInDays_in_range:
  assumes "utc_midnight a = Num u" and "utc_midnight b = Num v"
  shows "diffInDays a b = Num ((u - v) div 86400000)"
proof -
  have "\<lfloor>real_of_int (u - v) / real_of_int 86400000\<rfloor> = (u - v) div 86400000"
    by (rule floor_divide_of_int_eq)
  then show ?thesis using assms by (simp add: diffInDays_utc_midnight)
qed

lemma diffInDays_NaN:
  assumes "utc_midnight a = NaN \<or> utc_midnight b = NaN"
  shows "diffInDays a b = NaN"
  using assms by (cases "utc_midnight a") (auto simp: diffInDays_utc_midnight)

lemma div_minus_exact:
  fixes x :: int
  assumes "c dvd x"
  shows "x div c = - ((- x) div c)"
  using assms by (simp add: dvd_neg_div)

lemma diffInDays_antisymmetric_in_range:
  assumes "utc_midnight a \<noteq> NaN" and "utc_midnight b \<noteq> NaN"
  shows "js_equals (diffInDays a b) (js_negate (diffInDays b a))
     \<and> (\<exists>u v. utc_midnight a = Num u \<and> utc_midnight b = Num v
           \<and> 86400000 dvd (u - v) \<and> diffInDays a b = Num ((u - v) div 86400000))"
proof -
  from assms utc_midnight_cases [of a] utc_midnight_cases [of b]
  obtain u v where u: "utc_midnight a = Num u" "86400000 dvd u"
    and v: "utc_midnight b = Num v" "86400000 dvd v"
    by blast
  have multiple: "86400000 dvd (u - v)" using u(2) v(2) by (rule dvd_diff)
  have ab: "diffInDays a b = Num ((u - v) div 86400000)"
    using u(1) v(1) by (rule diffInDays_in_range)
  have ba: "diffInDays b a = Num ((v - u) div 86400000)"
    using v(1) u(1) by (rule diffInDays_in_range)
  have "(u - v) div 86400000 = - ((- (u - v)) div 86400000)"
    using multiple by (rule div_minus_exact)
  also have "- (u - v) = v - u" by simp
  finally have "js_equals (diffInDays a b) (js_negate (diffInDays b a))"
    unfolding ab ba by (simp add: js_equals_def)
  then show ?thesis using u(1) v(1) multiple ab by blast
qed

text \<open>
  C7, as the claim states it: for every pair of dates, \<open>diffInDays(a, b) ==
  -diffInDays(b, a)\<close>. The Invalid Date is a date: its getters return \<open>NaN\<close>, so does
  \<open>Date.UTC\<close>, and \<open>diffInDays\<close> is \<open>NaN\<close> in both directions, which \<open>==\<close> does not take
  for equal. So it is for a valid date whose local day has its UTC midnight before the
  range of time values, as the earliest Date has west of UTC: its local day is
  -271821-04-19, and \<open>Date.UTC(-271821, 3, 19)\<close> is \<open>NaN\<close>.
\<close>

theorem diffInDays_NaN_counterexample:
  "diffInDays Invalid_Date (Local_Date 2024 0 15) = NaN
   \<and> diffInDays (Local_Date 2024 0 15) Invalid_Date = NaN
   \<and> \<not> js_equals (diffInDays Invalid_Date (Local_Date 2024 0 15))
         (js_negate (diffInDays (Local_Date 2024 0 15) Invalid_Date))
   \<and> MakeDay (- 271821) 3 19 * 86400000 = - 8640000086400000
   \<and> Date_UTC (Num (- 271821)) (Num 3) (Num 19) = NaN
   \<and> \<not> js_equals (diffInDays (Local_Date (- 271821) 3 19) (Local_Date 2024 0 15))
         (js_negate (diffInDays (Local_Date 2024 0 15) (Local_Date (- 271821) 3 19)))"
proof -
  have day: "MakeDay (- 271821) 3 19 * 86400000 = - 8640000086400000"
    by (simp add: MakeDay_def DayFromYear_def DaysBeforeMonth_def InLeapYear_def)
  have early: "Date_UTC (Num (- 271821)) (Num 3) (Num 19) = NaN"
    by (simp add: day TimeClip_def)
  have a: "diffInDays Invalid_Date (Local_Date 2024 0 15) = NaN"
    by (simp add: diffInDays_def)
  have b: "diffInDays (Local_Date 2024 0 15) Invalid_Date = NaN"
    by (rule diffInDays_NaN) (simp add: utc_midnight_def)
  have "utc_midnight (Local_Date (- 271821) 3 19) = NaN"
    by (simp add: utc_midnight_def day TimeClip_def)
  then have c: "diffInDays (Local_Date (- 271821) 3 19) (Local_Date 2024 0 15) = NaN"
    by (intro diffInDays_NaN disjI1)
  have "\<not> js_equals (diffInDays Invalid_Date (Local_Date 2024 0 15))
         (js_negate (diffInDays (Local_Date 2024 0 15) Invalid_Date))"
    unfolding a by (simp add: js_equals_def)
  moreover have "\<not> js_equals (diffInDays (Local_Date (- 271821) 3 19) (Local_Date 2024 0 15))
         (js_negate (diffInDays (Local_Date 2024 0 15) (Local_Date (- 271821) 3 19)))"
    unfolding c by (simp add: js_equals_def)
  ultimately show ?thesis using a b day early by (intro conjI)
qed

text \<open>
  C7, as amended: for every pair of dates whose UTC midnights are in the range of time
  values (\<open>Date.UTC\<close> of the local year, month and day is not \<open>NaN\<close> for either),
  \<open>diffInDays(a, b) == -diffInDays(b, a)\<close>: both timestamps are those of the UTC
  midnight of a calendar day, so their difference is a multiple of the milliseconds of
  a day, and the floor of the quotient is the quotient itself. For an Invalid Date, and
  for a date whose UTC midnight is out of the range, \<open>diffInDays\<close> is \<open>NaN\<close> and the
  equation does not hold.
\<close>

theorem diffInDays_antisymmetric:
  "(utc_midnight a \<noteq> NaN \<and> utc_midnight b \<noteq> NaN \<longrightarrow>
      js_equals (diffInDays a b) (js_negate (diffInDays b a))
      \<and> (\<exists>u v. utc_midnight a = Num u \<and> utc_midnight b = Num v
            \<and> 86400000 dvd (u - v) \<and> diffInDays a b = Num ((u - v) div 86400000)))
   \<and> (utc_midnight a = NaN \<or> utc_midnight b = NaN \<longrightarrow>
      diffInDays a b = NaN
      \<and> \<not> js_equals (diffInDays a b) (js_negate (diffInDays b a)))"
proof -
  have in_range: "utc_midnight a \<noteq> NaN \<and> utc_midnight b \<noteq> NaN \<longrightarrow>
      js_equals (diffInDays a b) (js_negate (diffInDays b a))
      \<and> (\<exists>u v. utc_midnight a = Num u \<and> utc_midnight b = Num v
            \<and> 86400000 dvd (u - v) \<and> diffInDays a b = Num ((u - v) div 86400000))"
    using diffInDays_antisymmetric_in_range [of a b] by blast
  have out_of_range: "utc_midnight a = NaN \<or> utc_midnight b = NaN \<longrightarrow>
      diffInDays a b = NaN
      \<and> \<not> js_equals (diffInDays a b) (js_negate (diffInDays b a))"
  proof
    assume "utc_midnight a = NaN \<or> utc_midnight b = NaN"
    then have "diffInDays a b = NaN" by (rule diffInDays_NaN)
    then show "diffInDays a b = NaN
      \<and> \<not> js_equals (diffInDays a b) (js_negate (diffInDays b a))"
      by (simp add: js_equals_def)
  qed
  from in_range out_of_range show ?thesis by (rule conjI)
qed

theorem diffInDays_antisymmetric_witness:
  "utc_midnight (Local_Date 2024 0 20) = Num 1705708800000
   \<and> utc_midnight (Local_Date 2024 0 15) = Num 1705276800000
   \<and> diffInDays (Local_Date 2024 0 20) (Local_Date 2024 0 15) = Num 5
   \<and> diffInDays (Local_Date 2024 0 15) (Local_Date 2024 0 20) = Num (- 5)
   \<and> js_equals (diffInDays (Local_Date 2024 0 20) (Local_Date 2024 0 15))
        (js_negate (diffInDays (Local_Date 2024 0 15) (Local_Date 2024 0 20)))
   \<and> utc_midnight (Local_Date (- 271821) 3 20) = Num (- 8640000000000000)"
proof -
  let ?a = "Local_Date 2024 0 20" and ?b = "Local_Date 2024 0 15"
  have a: "utc_midnight ?a = Num 1705708800000"
    by (simp add: utc_midnight_def TimeClip_def MakeDay_def DayFromYear_def
        DaysBeforeMonth_def InLeapYear_def)
  have b: "utc_midnight ?b = Num 1705276800000"
    by (simp add: utc_midnight_def TimeClip_def MakeDay_def DayFromYear_def
        DaysBeforeMonth_def InLeapYear_def)
  have first: "utc_midnight (Local_Date (- 271821) 3 20) = Num (- 8640000000000000)"
    by (simp add: utc_midnight_def TimeClip_def MakeDay_def DayFromYear_def
        DaysBeforeMonth_def InLeapYear_def)
  have in_range: "utc_midnight ?a \<noteq> NaN \<and> utc_midnight ?b \<noteq> NaN"
    using a b by simp
  from diffInDays_antisymmetric [of ?a ?b, THEN conjunct1, rule_format, OF in_range]
  have eq: "js_equals (diffInDays ?a ?b) (js_negate (diffInDays ?b ?a))"
    and "\<exists>u v. utc_midnight ?a = Num u \<and> utc_midnight ?b = Num v
            \<and> 86400000 dvd (u - v) \<and> diffInDays ?a ?b = Num ((u - v) div 86400000)"
    by blast+
  then have ab: "diffInDays ?a ?b = Num 5" using a b by auto
  then have ba: "diffInDays ?b ?a = Num (- 5)"
    using eq by (cases "diffInDays ?b ?a") (simp_all add: js_equals_def)
  from a b ab ba eq first show ?thesis by (intro conjI)
qed

section \<open>Properties of the random utilities\<close>

subsection \<open>The pseudo-random source\<close>

lemma Rep_unit_draw_range: "0 \<le> Rep_unit_draw u \<and> Rep_unit_draw u < 1"
  using Rep_unit_draw [of u] by simp

lemma Rep_quarter: "Rep_unit_draw (Abs_unit_draw (1/4)) = 1/4"
  by (simp add: Abs_unit_draw_inverse)

lemma randomInt_range:
  assumes "0 < m"
  shows "0 \<le> fst (randomInt m g) \<and> fst (randomInt m g) < m"
proof -
  let ?r = "Rep_unit_draw (shd g)"
  have r: "0 \<le> ?r" "?r < 1" using Rep_unit_draw_range by auto
  have "?r * real_of_int m < real_of_int m" using r assms by simp
  moreover have "0 \<le> ?r * real_of_int m" using r assms by simp
  ultimately show ?thesis
    by (simp add: randomInt_def Math_random_def floor_less_iff)
qed

lemma randomInt_quarter: "randomInt m quarter_draws = (\<lfloor>real_of_int m / 4\<rfloor>, quarter_draws)"
  by (simp add: randomInt_def Math_random_def quarter_draws_def Rep_quarter)

lemma random_comparefn_quarter: "random_comparefn a b quarter_draws = (1/4, quarter_draws)"
  by (simp add: random_comparefn_def Math_random_def quarter_draws_def Rep_quarter)

subsection \<open>randomPassword\<close>

lemma index_text_inside: "0 \<le> k \<Longrightarrow> k < int (length s) \<Longrightarrow> index_text s k = [s ! nat k]"
  by (simp add: index_text_def)

text \<open>
  Over a character set that is not empty, the loop adds one code unit of the set for
  each index from \<open>i\<close> up to the length asked for.
\<close>

lemma randomString_loop_result:
  "charset \<noteq> [] \<Longrightarrow>
   int (length (fst (randomString_loop len charset i result g)))
     = int (length result) + max 0 (len - i)
   \<and> set (fst (randomString_loop len charset i result g)) \<subseteq> set result \<union> set charset"
proof (induction len charset i result g rule: randomString_loop.induct)
  case (1 len charset i result g)
  show ?case
  proof (cases "i < len")
    case False
    then show ?thesis by (subst (1 2) randomString_loop.simps) simp
  next
    case True
    obtain k g' where draw: "randomInt (int (length charset)) g = (k, g')"
      by (cases "randomInt (int (length charset)) g")
    have "0 < int (length charset)" using "1.prems" by simp
    from randomInt_range [OF this, of g] draw
    have k: "0 \<le> k" "k < int (length charset)" by simp_all
    have step: "randomString_loop len charset i result g
          = randomString_loop len charset (i + 1) (result @ [charset ! nat k]) g'"
      using True draw k by (subst randomString_loop.simps) (simp add: index_text_inside)
    have "charset ! nat k \<in> set charset" using k by simp
    with "1.IH" [OF True draw [symmetric] refl "1.prems"] True k
    show ?thesis unfolding step by (auto simp: index_text_inside)
  qed
qed

lemma character_classes_nonempty:
  "lowercase_chars \<noteq> [] \<and> uppercase_chars \<noteq> [] \<and> number_chars \<noteq> [] \<and> special_chars \<noteq> []"
  by (simp add: lowercase_chars_def uppercase_chars_def number_chars_def special_chars_def
      utf16_def)

lemma randomPassword_charset:
  "randomPassword len options g =
     (if enabled_chars options = [] then Inl no_character_type
      else Inr (randomString len (enabled_chars options) g))"
  using character_classes_nonempty
  by (simp add: randomPassword_def enabled_chars_def on_by_default_def Let_def)

lemma enabled_chars_empty:
  "enabled_chars options = [] \<longleftrightarrow>
     \<not> on_by_default (lowercase options) \<and> \<not> on_by_default (uppercase options)
     \<and> \<not> on_by_default (numbers options) \<and> \<not> on_by_default (special options)"
  using character_classes_nonempty by (simp add: enabled_chars_def)

text \<open>
  C6. \<open>randomPassword\<close> raises exactly when every character class toggle (uppercase,
  lowercase, numbers, special) is disabled, and what it raises is the one error of the
  empty character set. When at least one class is enabled it returns, without raising,
  a string of the length asked for (the empty string for a negative length) whose
  characters are of the union of the enabled classes.
\<close>

theorem randomPassword_raises_iff:
  "(isl (randomPassword len options g) \<longleftrightarrow>
      \<not> on_by_default (uppercase options) \<and> \<not> on_by_default (lowercase options)
      \<and> \<not> on_by_default (numbers options) \<and> \<not> on_by_default (special options))
   \<and> (randomPassword len options g = Inl no_character_type \<longleftrightarrow>
      \<not> on_by_default (uppercase options) \<and> \<not> on_by_default (lowercase options)
      \<and> \<not> on_by_default (numbers options) \<and> \<not> on_by_default (special options))
   \<and> (on_by_default (uppercase options) \<or> on_by_default (lowercase options)
      \<or> on_by_default (numbers options) \<or> on_by_default (special options) \<longrightarrow>
      (\<exists>password g'. randomPassword len options g = Inr (password, g')
         \<and> int (length password) = max 0 len
         \<and> set password \<subseteq> set (enabled_chars options)))"
proof (cases "enabled_chars options = []")
  case True
  then show ?thesis using enabled_chars_empty [of options] by (auto simp: randomPassword_charset)
next
  case False
  obtain password g' where drawn: "randomString len (enabled_chars options) g = (password, g')"
    by (cases "randomString len (enabled_chars options) g")
  from randomString_loop_result [OF False, of len 0 "[]" g] drawn
  have "int (length password) = max 0 len \<and> set password \<subseteq> set (enabled_chars options)"
    by (simp add: randomString_def)
  then show ?thesis
    using False enabled_chars_empty [of options] drawn by (auto simp: randomPassword_charset)
qed

theorem randomPassword_raises_iff_witness:
  "randomPassword 3 all_disabled quarter_draws = Inl no_character_type
   \<and> randomPassword 3 digits_only quarter_draws = Inr (utf16 ''222'', quarter_draws)
   \<and> enabled_chars digits_only = utf16 ''0123456789''"
proof -
  have off: "\<not> on_by_default (uppercase all_disabled) \<and> \<not> on_by_default (lowercase all_disabled)
      \<and> \<not> on_by_default (numbers all_disabled) \<and> \<not> on_by_default (special all_disabled)"
    by (simp add: all_disabled_def on_by_default_def)
  have a: "randomPassword 3 all_disabled quarter_draws = Inl no_character_type"
    using randomPassword_raises_iff [of 3 all_disabled quarter_draws] off by blast
  have chars: "enabled_chars digits_only = utf16 ''0123456789''"
    by (simp add: enabled_chars_def digits_only_def on_by_default_def number_chars_def)
  have on: "on_by_default (numbers digits_only)"
    by (simp add: digits_only_def on_by_default_def)
  have "\<not> isl (randomPassword 3 digits_only quarter_draws)"
    using randomPassword_raises_iff [of 3 digits_only quarter_draws] on by blast
  moreover have "randomString 3 (utf16 ''0123456789'') quarter_draws = (utf16 ''222'', quarter_draws)"
    by (simp add: randomString_def randomInt_quarter index_text_def utf16_def)
  moreover have "utf16 ''0123456789'' \<noteq> []" by (simp add: utf16_def)
  ultimately have b: "randomPassword 3 digits_only quarter_draws = Inr (utf16 ''222'', quarter_draws)"
    by (simp add: randomPassword_charset chars)
  from a b chars show ?thesis by (intro conjI)
qed

subsection \<open>shuffle and randomElements\<close>

text \<open>One step of the loop is one exchange of the reference shuffle.\<close>

lemma swap_elements_exchange:
  "swap_elements xs (int (Suc k)) \<lfloor>Rep_unit_draw u * real_of_int (int (Suc k) + 1)\<rfloor>
   = exchange xs (Suc k) (uniform_index (Suc (Suc k)) u)"
proof -
  have "real_of_int (int (Suc k) + 1) = real (Suc (Suc k))" by simp
  then show ?thesis
    unfolding swap_elements_def exchange_def uniform_index_def Let_def fst_conv snd_conv nat_int
    by (simp only:)
qed

lemma shuffle_loop_fisher_yates:
  "fst (shuffle_loop xs (int k) g) = fisher_yates_down k xs g"
proof (induction k arbitrary: xs g)
  case 0
  show ?case by (subst shuffle_loop.simps) simp
next
  case (Suc k)
  let ?j = "\<lfloor>Rep_unit_draw (shd g) * real_of_int (int (Suc k) + 1)\<rfloor>"
  have "shuffle_loop xs (int (Suc k)) g =
        shuffle_loop (swap_elements xs (int (Suc k)) ?j) (int k) (stl g)"
    by (subst shuffle_loop.simps) (simp add: randomInt_def Math_random_def)
  then show ?case using Suc.IH by (simp only: swap_elements_exchange fisher_yates_down.simps)
qed

lemma shuffle_fisher_yates: "fst (shuffle array g) = fisher_yates array g"
proof (cases array)
  case Nil
  then show ?thesis by (simp add: shuffle_def fisher_yates_def shuffle_loop.simps)
next
  case (Cons a as)
  then have "int (length array) - 1 = int (length array - 1)" by simp
  then show ?thesis
    by (simp only: shuffle_def fisher_yates_def Let_def shuffle_loop_fisher_yates)
qed

lemma uniform_index_less:
  assumes "0 < n"
  shows "uniform_index n u < n"
proof -
  have r: "0 \<le> Rep_unit_draw u" "Rep_unit_draw u < 1" using Rep_unit_draw_range by auto
  have "Rep_unit_draw u * real n < real n" using r assms by simp
  then have "\<lfloor>Rep_unit_draw u * real n\<rfloor> < int n" by (simp add: floor_less_iff)
  moreover have "0 \<le> \<lfloor>Rep_unit_draw u * real n\<rfloor>" using r by simp
  ultimately show ?thesis unfolding uniform_index_def by linarith
qed

lemma mset_exchange:
  "i < length xs \<Longrightarrow> j < length xs \<Longrightarrow> mset (exchange xs i j) = mset xs"
  unfolding exchange_def by (simp add: mset_swap)

lemma length_exchange: "length (exchange xs i j) = length xs"
  by (simp add: exchange_def)

lemma mset_fisher_yates_down:
  "k < length xs \<Longrightarrow> mset (fisher_yates_down k xs g) = mset xs"
proof (induction k arbitrary: xs g)
  case 0
  show ?case by simp
next
  case (Suc k)
  let ?j = "uniform_index (Suc (Suc k)) (shd g)"
  have "?j < Suc (Suc k)" by (rule uniform_index_less) simp
  then have j: "?j < length xs" using Suc.prems by simp
  have "mset (exchange xs (Suc k) ?j) = mset xs" using Suc.prems j by (rule mset_exchange)
  moreover have "k < length (exchange xs (Suc k) ?j)"
    using Suc.prems by (simp add: length_exchange)
  ultimately show ?case using Suc.IH by simp
qed

lemma mset_fisher_yates: "mset (fisher_yates xs g) = mset xs"
  by (cases xs) (simp_all add: fisher_yates_def mset_fisher_yates_down)

lemma randomElements_prefix:
  assumes "0 \<le> c"
  shows "fst (randomElements array_sort array c g) =
     take (nat (min c (int (length array)))) (fst (array_sort random_comparefn array g))"
  using assms by (simp add: randomElements_def js_slice_prefix split: prod.split)

lemma randomElement_index:
  assumes "array \<noteq> []"
  shows "fst (randomElement array g) = Some (array ! uniform_index (length array) (shd g))"
proof -
  have "0 < int (length array)" using assms by simp
  from randomInt_range [OF this, of g] show ?thesis
    by (simp add: randomElement_def uniform_index_def randomInt_def Math_random_def Let_def)
qed

text \<open>
  C9, as the claim states it: \<open>randomElements(array, count)\<close> is the first
  \<open>min(count, length)\<close> elements of a Fisher-Yates-shuffled copy of the array. The code
  does not shuffle so: it sorts a copy under a comparison function that returns 0.5
  minus a fresh draw. On the array \<open>[1, 2, 3]\<close> and the stream whose every draw is 1/4
  the Fisher-Yates shuffle is \<open>[2, 3, 1]\<close>; every comparison returns 1/4, above 0, and
  the insertion sort gives \<open>[3, 2, 1]\<close> (a sort that inserts by binary search gives
  \<open>[1, 2, 3]\<close>).
\<close>

theorem randomElements_not_fisher_yates_counterexample:
  "fst (randomElements insertion_sort [1, 2, 3 :: int] 3 quarter_draws) = [3, 2, 1]
   \<and> take (nat (min 3 (int (length [1, 2, 3 :: int])))) (fisher_yates [1, 2, 3 :: int] quarter_draws)
       = [2, 3, 1]"
proof -
  have "fst (randomElements insertion_sort [1, 2, 3 :: int] 3 quarter_draws) = [3, 2, 1]"
    by (simp add: randomElements_def insertion_sort_def random_comparefn_quarter
        js_slice_def slice_index_def)
  moreover have "fisher_yates [1, 2, 3 :: int] quarter_draws = [2, 3, 1]"
    by (simp add: fisher_yates_def exchange_def uniform_index_def quarter_draws_def
        Rep_quarter eval_nat_numeral)
  ultimately show ?thesis by simp
qed

text \<open>
  C9, as amended: with the pseudo-random source as an input stream of draws,
  \<open>shuffle(array)\<close> equals the reference Fisher-Yates shuffle of a copy of the array
  (each element, from the last index downward, exchanged with the element at a
  uniformly chosen earlier or equal index) and is a permutation of the array;
  \<open>randomElement(array)\<close> is the element at the index that one draw chooses; and
  \<open>randomElements(array, count)\<close>, for a count of at least 0, is the first
  \<open>min(count, length)\<close> elements of a copy of the array sorted by the platform's sort
  under a comparison function that returns 0.5 minus a fresh draw, which is a selection
  without replacement when that sort permutes its input.
\<close>

theorem shuffle_is_fisher_yates:
  "fst (shuffle array g) = fisher_yates array g
   \<and> mset (fst (shuffle array g)) = mset array
   \<and> (array \<noteq> [] \<longrightarrow>
        fst (randomElement array g) = Some (array ! uniform_index (length array) (shd g))
        \<and> uniform_index (length array) (shd g) < length array)
   \<and> (0 \<le> c \<longrightarrow>
        fst (randomElements array_sort array c g) =
          take (nat (min c (int (length array)))) (fst (array_sort random_comparefn array g)))
   \<and> (0 \<le> c \<and> mset (fst (array_sort random_comparefn array g)) = mset array \<longrightarrow>
        mset (fst (randomElements array_sort array c g)) \<subseteq># mset array
        \<and> int (length (fst (randomElements array_sort array c g))) = min c (int (length array)))"
proof (intro conjI impI)
  show "fst (shuffle array g) = fisher_yates array g" by (rule shuffle_fisher_yates)
  show "mset (fst (shuffle array g)) = mset array"
    by (simp only: shuffle_fisher_yates mset_fisher_yates)
next
  assume "array \<noteq> []"
  then show "fst (randomElement array g) = Some (array ! uniform_index (length array) (shd g))"
    by (rule randomElement_index)
next
  assume "array \<noteq> []"
  then show "uniform_index (length array) (shd g) < length array"
    by (intro uniform_index_less) simp
next
  assume "0 \<le> c"
  then show "fst (randomElements array_sort array c g) =
      take (nat (min c (int (length array)))) (fst (array_sort random_comparefn array g))"
    by (rule randomElements_prefix)
next
  assume a: "0 \<le> c \<and> mset (fst (array_sort random_comparefn array g)) = mset array"
  let ?sorted = "fst (array_sort random_comparefn array g)"
  have eq: "fst (randomElements array_sort array c g) = take (nat (min c (int (length array)))) ?sorted"
    using a by (simp add: randomElements_prefix)
  have "mset (take (nat (min c (int (length array)))) ?sorted) \<subseteq># mset ?sorted"
    by (metis append_take_drop_id mset_append mset_subset_eq_add_left)
  then show "mset (fst (randomElements array_sort array c g)) \<subseteq># mset array"
    using a eq by simp
next
  assume a: "0 \<le> c \<and> mset (fst (array_sort random_comparefn array g)) = mset array"
  let ?sorted = "fst (array_sort random_comparefn array g)"
  have "length ?sorted = length array" using a by (metis size_mset)
  then show "int (length (fst (randomElements array_sort array c g))) = min c (int (length array))"
    using a by (simp add: randomElements_prefix)
qed

theorem shuffle_is_fisher_yates_witness:
  "fst (shuffle [1, 2, 3 :: int] quarter_draws) = [2, 3, 1]
   \<and> fisher_yates [1, 2, 3 :: int] quarter_draws = [2, 3, 1]
   \<and> fst (randomElement [1, 2, 3 :: int] quarter_draws) = Some 1
   \<and> fst (randomElements insertion_sort [1, 2, 3 :: int] 2 quarter_draws) = [3, 2]
   \<and> fst (insertion_sort random_comparefn [1, 2, 3 :: int] quarter_draws) = [3, 2, 1]"
proof -
  note inst = shuffle_is_fisher_yates [of "[1, 2, 3 :: int]" quarter_draws 2 insertion_sort]
  have fy: "fisher_yates [1, 2, 3 :: int] quarter_draws = [2, 3, 1]"
    by (simp add: fisher_yates_def exchange_def uniform_index_def quarter_draws_def
        Rep_quarter eval_nat_numeral)
  have sorted: "fst (insertion_sort random_comparefn [1, 2, 3 :: int] quarter_draws) = [3, 2, 1]"
    by (simp add: insertion_sort_def random_comparefn_quarter)
  have index: "uniform_index (length [1, 2, 3 :: int]) (shd quarter_draws) = 0"
    by (simp add: uniform_index_def quarter_draws_def Rep_quarter)
  have a: "fst (shuffle [1, 2, 3 :: int] quarter_draws) = [2, 3, 1]"
    using inst fy by simp
  have b: "fst (randomElement [1, 2, 3 :: int] quarter_draws) = Some 1"
    using inst index by simp
  have c: "fst (randomElements insertion_sort [1, 2, 3 :: int] 2 quarter_draws) = [3, 2]"
    using inst sorted by simp
  from a fy b c sorted show ?thesis by (intro conjI)
qed

end
